theory Spec2Isabelle
  imports Complex_Main
begin

section \<open>GISTEMP steps 3 and 5: gridding, zonal averaging, annual reduction\<close>

text \<open>
  A shallow embedding of \<^verbatim>\<open>steps/step3.py\<close> and \<^verbatim>\<open>steps/step5.py\<close>.
  Python floats are idealised as \<^typ>\<open>real\<close>, Python integers are \<^typ>\<open>int\<close>
  (or \<^typ>\<open>nat\<close> for list positions), generators are lists of yielded values paired
  with the way the generator ended, and every exception of the source is a value
  of \<open>py_error\<close>. Writes to log and progress files are left out: they do not
  feed back into any computed value.
\<close>

subsection \<open>Errors, generators, the missing-value marker\<close>

datatype py_error =
    ValueError | IndexError | KeyError | AssertionError | StopIteration
  | ZeroDivisionError | NoBandInZone nat

text \<open>How a generator ended: by running off its end, or by an exception.\<close>

datatype gen_end = Exhausted | Raised py_error

text \<open>
  Modelled from the spec: the marker \<^verbatim>\<open>MISSING\<close> and the test \<^verbatim>\<open>valid\<close> of
  \<^verbatim>\<open>steps/giss_data.py\<close>, which is absent. The value is the "missing data flag"
  9999.0 that step5.py prints and step3.py stores as \<^verbatim>\<open>missing_flag\<close>; a value is
  valid when it is not the marker.
\<close>

definition MISSING :: real where
  "MISSING = 9999"

definition valid :: "real \<Rightarrow> bool" where
  "valid v \<longleftrightarrow> v \<noteq> MISSING"

subsection \<open>Python's sorted\<close>

text \<open>
  \<^verbatim>\<open>sorted(xs, key=f)\<close> is a stable ascending sort; \<^const>\<open>sort_key\<close> is one, and
  a stable sort has only one possible result. With \<^verbatim>\<open>reverse=True\<close> the result is
  descending and elements of equal key still keep their original order.
\<close>

definition sorted_py :: "('a \<Rightarrow> 'k::linorder) \<Rightarrow> 'a list \<Rightarrow> 'a list" where
  "sorted_py f xs = sort_key f xs"

definition sorted_py_reverse :: "('a \<Rightarrow> 'k::linorder) \<Rightarrow> 'a list \<Rightarrow> 'a list" where
  "sorted_py_reverse f xs = rev (sort_key f (rev xs))"

subsection \<open>step5.sort_perm\<close>

text \<open>
  \<^verbatim>\<open>
  z = list(zip(a, range(len(a))))
  z = sorted(z, key=lambda x: x[1] - x[0])
  data, indexes = zip(*z)
  return data, indexes
  \<close>
  Unpacking \<^verbatim>\<open>zip(*z)\<close> of an empty \<^verbatim>\<open>z\<close> raises ValueError.
\<close>

definition sort_perm :: "int list \<Rightarrow> py_error + (int list \<times> nat list)" where
  "sort_perm a =
     (let z = zip a [0..<length a];
          z' = sorted_py (\<lambda>x. int (snd x) - fst x) z
      in if z' = [] then Inl ValueError else Inr (map fst z', map snd z'))"

text \<open>What the docstring of \<^verbatim>\<open>sort_perm\<close> promises of the first component.\<close>

definition descending :: "int list \<Rightarrow> bool" where
  "descending xs \<longleftrightarrow> sorted (rev xs)"

subsection \<open>Collaborators and parameters that the two source files import\<close>

type_synonym series = "real list"

text \<open>A region: (southern, northern, western, eastern) bounds in degrees.\<close>

type_synonym box = "real \<times> real \<times> real \<times> real"

text \<open>
  \<^verbatim>\<open>series.combine\<close> accepts the weight of the incoming series as one number
  (step 3) or as a list, one weight per month (step 5).
\<close>

datatype weight_arg = Scalar real | Array "real list"

text \<open>
  \<^verbatim>\<open>steps/series.py\<close> and \<^verbatim>\<open>parameters.py\<close> are absent, so
  \<^verbatim>\<open>series.combine\<close>, \<^verbatim>\<open>series.anomalize\<close> and the constants of \<^verbatim>\<open>parameters\<close>
  are parameters of the model. The source's \<^verbatim>\<open>combine\<close> updates the composite
  series and its weights in place and returns the twelve per-month counts of
  combined data; here it returns all three. \<^verbatim>\<open>anomalize\<close> updates a series in
  place; here it returns the new series.
\<close>

record env =
  combine :: "series \<Rightarrow> series \<Rightarrow> series \<Rightarrow> weight_arg \<Rightarrow> int \<Rightarrow> series \<times> series \<times> int list"
  anomalize :: "series \<Rightarrow> int \<times> int \<Rightarrow> int \<Rightarrow> series"
  gridding_min_overlap :: int
  gridding_reference_period :: "int \<times> int"
  subbox_min_valid :: int
  subbox_reference_period :: "int \<times> int"
  box_min_overlap :: int
  box_reference_period :: "int \<times> int"
  zone_annual_min_months :: int

text \<open>The two fields of the run metadata that the modelled functions read.\<close>

record meta =
  yrbeg :: int
  monm :: int

text \<open>\<^verbatim>\<open>[x] * n\<close>: the empty list when \<^verbatim>\<open>n\<close> is not positive.\<close>

definition py_repeat :: "'a \<Rightarrow> int \<Rightarrow> 'a list" where
  "py_repeat x n = replicate (nat n) x"

text \<open>\<^verbatim>\<open>sum(valid(a) for a in xs)\<close>\<close>

definition count_valid :: "series \<Rightarrow> int" where
  "count_valid xs = int (length (filter valid xs))"

subsection \<open>step5.zones\<close>

definition zones :: "nat list \<times> nat set list" where
  "zones =
     (let boxes_in_band = [4, 8, 12, 16, 16, 12, 8, 4];
          N = {0..<4}; G = {0..<8}; S = G - N;
          T = {3, 4}; NM = {1, 2}; SM = {5, 6}
      in (boxes_in_band, [N - T, T, S - T, NM, SM, N, S, G]))"

subsection \<open>step5.zonav\<close>

text \<open>One element of the box stream: (series, weights, valid-month count, bounds).\<close>

type_synonym boxed = "series \<times> series \<times> int \<times> box"

text \<open>
  \<^verbatim>\<open>for box in range(n): ... = next(boxed_data)\<close>: the next \<open>n\<close> boxes and the
  rest of the stream, or StopIteration when the stream ends first.
\<close>

fun next_boxes :: "nat \<Rightarrow> 'a list \<Rightarrow> py_error + ('a list \<times> 'a list)" where
  "next_boxes 0 s = Inr ([], s)"
| "next_boxes (Suc n) [] = Inl StopIteration"
| "next_boxes (Suc n) (b # s) =
     (case next_boxes n s of
        Inl err \<Rightarrow> Inl err
      | Inr (bs, s') \<Rightarrow> Inr (b # bs, s'))"

text \<open>
  The loop \<^verbatim>\<open>for n in range(1, boxes_in_band[band])\<close> with its \<^verbatim>\<open>break\<close>:
  \<open>sl\<close> is the first and \<open>iord\<close> the second component of \<^verbatim>\<open>sort_perm\<close>.
\<close>

fun combine_rest ::
  "env \<Rightarrow> series list \<Rightarrow> series list \<Rightarrow> int list \<Rightarrow> nat list \<Rightarrow>
   series \<times> series \<Rightarrow> nat list \<Rightarrow> series \<times> series" where
  "combine_rest e box_series box_weights sl iord (avg, wt) [] = (avg, wt)"
| "combine_rest e box_series box_weights sl iord (avg, wt) (n # ns) =
     (let nr = iord ! n in
      if sl ! n = 0 then (avg, wt)
      else (case combine e avg wt (box_series ! nr) (Array (box_weights ! nr))
                   (box_min_overlap e) of
              (avg', wt', _) \<Rightarrow> combine_rest e box_series box_weights sl iord (avg', wt') ns))"

text \<open>
  The body of the loop over the bands, for the boxes of one band: the band's
  series, its weights and its number of valid months (\<^verbatim>\<open>lenz[band]\<close>).
\<close>

definition zonav_band :: "env \<Rightarrow> meta \<Rightarrow> boxed list \<Rightarrow> py_error + (series \<times> series \<times> int)" where
  "zonav_band e m bxs =
     (let box_series = map (\<lambda>(s, w, l, b). s) bxs;
          box_weights = map (\<lambda>(s, w, l, b). w) bxs;
          box_length = map (\<lambda>(s, w, l, b). l) bxs;
          total_length = sum_list box_length;
          finish = (\<lambda>(avg, wt).
             let avg' = anomalize e avg (box_reference_period e) (yrbeg m)
             in (avg', wt, count_valid avg'))
      in if total_length = 0
         then Inr (finish (py_repeat MISSING (monm m), py_repeat 0 (monm m)))
         else (case sort_perm box_length of
                 Inl err \<Rightarrow> Inl err
               | Inr (sl, iord) \<Rightarrow>
                   (let nr = iord ! 0
                    in Inr (finish (combine_rest e box_series box_weights sl iord
                                      (box_series ! nr, box_weights ! nr)
                                      [1..<length bxs])))))"

text \<open>The loop over the bands: the bands yielded, then an error or the unread stream.\<close>

fun zonav_bands ::
  "env \<Rightarrow> meta \<Rightarrow> nat list \<Rightarrow> boxed list \<Rightarrow>
   (series \<times> series \<times> int) list \<times> (py_error + boxed list)" where
  "zonav_bands e m [] stream = ([], Inr stream)"
| "zonav_bands e m (n # ns) stream =
     (case next_boxes n stream of
        Inl err \<Rightarrow> ([], Inl err)
      | Inr (bxs, stream') \<Rightarrow>
          (case zonav_band e m bxs of
             Inl err \<Rightarrow> ([], Inl err)
           | Inr band \<Rightarrow>
               (case zonav_bands e m ns stream' of
                  (bands, r) \<Rightarrow> (band # bands, r))))"

text \<open>\<^verbatim>\<open>for j1 in range(bands): if iord[j1] in band_in_zone[zone]: break\<close>\<close>

fun find_first_band :: "nat list \<Rightarrow> nat set \<Rightarrow> nat list \<Rightarrow> nat option" where
  "find_first_band iord z [] = None"
| "find_first_band iord z (j # js) =
     (if iord ! j \<in> z then Some j else find_first_band iord z js)"

text \<open>\<^verbatim>\<open>for j in range(j1 + 1, bands)\<close>, adding the other bands of the zone.\<close>

fun combine_bands ::
  "env \<Rightarrow> series list \<Rightarrow> series list \<Rightarrow> nat list \<Rightarrow> nat set \<Rightarrow>
   series \<times> series \<Rightarrow> nat list \<Rightarrow> series \<times> series" where
  "combine_bands e avg wt iord z (avgg, wtg) [] = (avgg, wtg)"
| "combine_bands e avg wt iord z (avgg, wtg) (j # js) =
     (let band = iord ! j in
      if band \<notin> z then combine_bands e avg wt iord z (avgg, wtg) js
      else (case combine e avgg wtg (avg ! band) (Array (wt ! band)) (box_min_overlap e) of
              (avgg', wtg', _) \<Rightarrow> combine_bands e avg wt iord z (avgg', wtg') js))"

text \<open>The loop over the compound zones; \<open>k\<close> is the number of the zone.\<close>

fun compound_zones ::
  "env \<Rightarrow> meta \<Rightarrow> series list \<Rightarrow> series list \<Rightarrow> nat list \<Rightarrow> nat \<Rightarrow> nat \<Rightarrow>
   nat set list \<Rightarrow> (series \<times> series) list \<times> gen_end" where
  "compound_zones e m avg wt iord bands k [] = ([], Exhausted)"
| "compound_zones e m avg wt iord bands k (z # zs) =
     (case find_first_band iord z [0..<bands] of
        None \<Rightarrow> ([], Raised (NoBandInZone k))
      | Some j1 \<Rightarrow>
          (let band = iord ! j1;
               (avgg, wtg) = combine_bands e avg wt iord z (avg ! band, wt ! band)
                               [Suc j1..<bands];
               avgg' = anomalize e avgg (box_reference_period e) (yrbeg m)
           in (case compound_zones e m avg wt iord bands (Suc k) zs of
                 (rest, r) \<Rightarrow> ((avgg', wtg) # rest, r))))"

text \<open>
  The generator \<^verbatim>\<open>zonav\<close>: the (series, weights) pairs it yields and how it ends.
  A StopIteration of \<^verbatim>\<open>next(boxed_data)\<close> inside the band loop leaves the
  generator as that exception. After the bands, a further box in the stream
  reaches \<^verbatim>\<open>assert 0\<close>, which \<^verbatim>\<open>except StopIteration\<close> does not catch.
\<close>

definition zonav :: "env \<Rightarrow> meta \<Rightarrow> boxed list \<Rightarrow> (series \<times> series) list \<times> gen_end" where
  "zonav e m boxed_data =
     (let (boxes_in_band, band_in_zone) = zones;
          bands = length boxes_in_band;
          out = (\<lambda>(avg, wt, lenz). (avg, wt))
      in case zonav_bands e m boxes_in_band boxed_data of
           (bs, Inl err) \<Rightarrow> (map out bs, Raised err)
         | (bs, Inr rest) \<Rightarrow>
             if rest \<noteq> [] then (map out bs, Raised AssertionError)
             else (case sort_perm (map (\<lambda>(avg, wt, lenz). lenz) bs) of
                     Inl err \<Rightarrow> (map out bs, Raised err)
                   | Inr (lenz, iord) \<Rightarrow>
                       (case compound_zones e m (map (\<lambda>(avg, wt, lenz). avg) bs)
                               (map (\<lambda>(avg, wt, lenz). wt) bs) iord bands 0 band_in_zone of
                          (zs, r) \<Rightarrow> (map out bs @ zs, r))))"

text \<open>The stream cut into consecutive groups of the given sizes.\<close>

fun groups :: "nat list \<Rightarrow> 'a list \<Rightarrow> 'a list list" where
  "groups [] s = []"
| "groups (n # ns) s = take n s # groups ns (drop n s)"

subsection \<open>step3.incircle\<close>

text \<open>
  A station record as step 3 reads it: \<open>st_lat\<close> and \<open>st_lon\<close> are
  \<^verbatim>\<open>record.station.lat\<close> and \<^verbatim>\<open>record.station.lon\<close> in degrees, \<open>st_series\<close>
  is \<^verbatim>\<open>record.series\<close>, \<open>st_good_count\<close> is \<^verbatim>\<open>record.good_count\<close> and
  \<open>st_uid\<close> is \<^verbatim>\<open>record.uid\<close>.
\<close>

record station_record =
  st_uid :: string
  st_lat :: real
  st_lon :: real
  st_series :: series
  st_good_count :: int
  rel_first_month :: int
  rel_last_month :: int

text \<open>
  The cosine of the angle between the target and a station, as the loop body
  computes it (the dot product of the two unit vectors).
\<close>

definition cosd :: "real \<Rightarrow> real \<Rightarrow> real \<Rightarrow> real \<Rightarrow> real" where
  "cosd lat lon s_lat s_lon =
     (let coslat = cos (lat * pi / 180);
          sinlat = sin (lat * pi / 180);
          coslon = cos (lon * pi / 180);
          sinlon = sin (lon * pi / 180);
          sinlats = sin (s_lat * pi / 180);
          coslats = cos (s_lat * pi / 180);
          sinlons = sin (s_lon * pi / 180);
          coslons = cos (s_lon * pi / 180)
      in sinlats * sinlat + coslats * coslat * (coslons * coslon + sinlons * sinlon))"

text \<open>
  \<^verbatim>\<open>d = math.sqrt(2 * (1 - cosd)); weight = 1.0 - (d / arc)\<close>, as a function
  of the arc and of the cosine that the loop body has computed. The two lines can
  raise: \<open>weight_checked\<close> below gives the result with the exceptions.
\<close>

definition weight_of :: "real \<Rightarrow> real \<Rightarrow> real" where
  "weight_of arc c = (let d = sqrt (2 * (1 - c)) in 1 - d / arc)"

fun incircle :: "station_record list \<Rightarrow> real \<Rightarrow> real \<Rightarrow> real \<Rightarrow> (station_record \<times> real) list" where
  "incircle [] arc lat lon = []"
| "incircle (record # iterable) arc lat lon =
     (let cosarc = cos arc;
          c = cosd lat lon (st_lat record) (st_lon record)
      in if c > cosarc
         then (record, weight_of arc c) # incircle iterable arc lat lon
         else incircle iterable arc lat lon)"

text \<open>
  The two lines that compute the weight, with the exceptions of Python:
  \<^verbatim>\<open>math.sqrt\<close> raises ValueError on a negative argument, and the division
  raises ZeroDivisionError for an arc of 0. In exact arithmetic neither is
  reached inside \<open>incircle\<close>: the cosine never exceeds 1, and a cosine above
  \<open>cos arc\<close> excludes an arc of 0 (lemma \<open>incircle_weight_checked\<close>). In
  floating point the computed cosine of a station that lies on the target can be
  rounded above 1, and then the square root raises.
\<close>

definition weight_checked :: "real \<Rightarrow> real \<Rightarrow> py_error + real" where
  "weight_checked arc c =
     (if 2 * (1 - c) < 0 then Inl ValueError
      else if arc = 0 then Inl ZeroDivisionError
      else Inr (weight_of arc c))"

text \<open>
  The great-circle angular distance in radians between two points given in
  degrees, by the spherical law of cosines.
\<close>

definition great_circle_angle :: "real \<Rightarrow> real \<Rightarrow> real \<Rightarrow> real \<Rightarrow> real" where
  "great_circle_angle lat lon s_lat s_lon =
     arccos (sin (s_lat * pi / 180) * sin (lat * pi / 180) +
             cos (s_lat * pi / 180) * cos (lat * pi / 180) * cos ((s_lon - lon) * pi / 180))"

subsection \<open>step3.iter_subbox_grid\<close>

text \<open>
  The geometry of \<^verbatim>\<open>steps/eqarea.py\<close> and the radius of \<^verbatim>\<open>steps/earth.py\<close>,
  both absent, are parameters: the boxes of \<^verbatim>\<open>eqarea.grid()\<close>, the regions
  of \<^verbatim>\<open>eqarea.gridsub()\<close> (a box with its subboxes), \<^verbatim>\<open>eqarea.centre\<close> and
  \<^verbatim>\<open>earth.radius\<close>, a constant that is not 0.
\<close>

record geometry =
  grid :: "box list"
  gridsub :: "(box \<times> box list) list"
  centre :: "box \<Rightarrow> real \<times> real"
  earth_radius :: real

text \<open>
  The \<^verbatim>\<open>giss_data.Series\<close> that step 3 builds for a cell, with the keyword
  arguments \<^verbatim>\<open>series\<close>, \<^verbatim>\<open>n\<close>, \<^verbatim>\<open>box\<close>, \<^verbatim>\<open>stations\<close>, \<^verbatim>\<open>station_months\<close>
  and \<^verbatim>\<open>d\<close> of the two constructor calls; \<^verbatim>\<open>n\<close> is passed only for a
  cell with contributors.
\<close>

record gridcell =
  cell_series :: series
  cell_n :: "int option"
  cell_box :: box
  cell_stations :: int
  cell_station_months :: int
  cell_d :: real

text \<open>Python 3 \<^verbatim>\<open>round(x)\<close>: to the nearest integer, a tie to the even one.\<close>

definition py_round :: "real \<Rightarrow> int" where
  "py_round x =
     (let f = \<lfloor>x\<rfloor>; r = x - of_int f
      in if r < 1 / 2 then f
         else if 1 / 2 < r then f + 1
         else if even f then f else f + 1)"

text \<open>Cells that touch a pole are all centred on the pole.\<close>

definition pole_snap :: "real \<times> real \<Rightarrow> real \<times> real" where
  "pole_snap c =
     (let c1 = (if py_round (fst c) \<ge> 84 then (90, 0) else c)
      in if py_round (fst c1) \<le> - 84 then (- 90, 0) else c1)"

text \<open>
  \<^verbatim>\<open>s[i:j] = a\<close>: a negative bound counts from the end, both bounds are
  clipped to the list, an upper bound below the lower one is raised to it, and
  the list may change its length.
\<close>

definition py_slice_bound :: "int \<Rightarrow> nat \<Rightarrow> nat" where
  "py_slice_bound i len = (if i < 0 then nat (max 0 (int len + i)) else min (nat i) len)"

definition py_slice_assign :: "'a list \<Rightarrow> int \<Rightarrow> int \<Rightarrow> 'a list \<Rightarrow> 'a list" where
  "py_slice_assign s i j a =
     (let lo = py_slice_bound i (length s);
          hi = max lo (py_slice_bound j (length s))
      in take lo s @ a @ drop hi s)"

text \<open>
  The loop \<^verbatim>\<open>for record, wt in contributors[1:]\<close>. The state is
  (subbox_series, weight, total_good_months, total_stations, max_weight). A
  contributor whose merge added no month leaves the loop body at
  \<^verbatim>\<open>continue\<close>, before \<^verbatim>\<open>max_weight\<close> is updated.
\<close>

fun add_stations ::
  "env \<Rightarrow> int \<Rightarrow> series \<times> series \<times> int \<times> int \<times> real \<Rightarrow>
   (station_record \<times> real) list \<Rightarrow> series \<times> series \<times> int \<times> int \<times> real" where
  "add_stations e max_months st [] = st"
| "add_stations e max_months
     (subbox_series, weight, total_good_months, total_stations, max_weight)
     ((record, wt) # rest) =
     (let new = py_repeat MISSING max_months;
          aa = rel_first_month record;
          bb = rel_last_month record;
          new = py_slice_assign new (aa - 1) bb (st_series record)
      in case combine e subbox_series weight new (Scalar wt) (gridding_min_overlap e) of
           (subbox_series', weight', months) \<Rightarrow>
             (let n_good_months = sum_list months;
                  total_good_months = total_good_months + n_good_months
              in if n_good_months = 0
                 then add_stations e max_months
                        (subbox_series', weight', total_good_months, total_stations, max_weight)
                        rest
                 else add_stations e max_months
                        (subbox_series', weight', total_good_months, total_stations + 1,
                         max max_weight wt)
                        rest))"

text \<open>
  "Initialise series and weight arrays with first station": the series of the
  first contributor copied into an all-missing series from its first month on,
  and its weight on every valid month.
\<close>

definition seed :: "int \<Rightarrow> station_record \<Rightarrow> real \<Rightarrow> series \<times> series" where
  "seed max_months record wt =
     (let subbox_series = py_repeat MISSING max_months;
          offset = rel_first_month record - 1;
          a = st_series record;
          subbox_series = py_slice_assign subbox_series offset (offset + int (length a)) a;
          weight = map (\<lambda>v. wt * (if valid v then 1 else 0)) subbox_series
      in (subbox_series, weight))"

text \<open>
  The body of the loop over the subboxes: the cell yielded for one subbox.
  \<open>station_records\<close> is the list already sorted by \<^verbatim>\<open>good_count\<close>.
\<close>

definition grid_cell ::
  "env \<Rightarrow> geometry \<Rightarrow> station_record list \<Rightarrow> int \<Rightarrow> int \<Rightarrow> real \<Rightarrow> real \<Rightarrow> box \<Rightarrow> gridcell" where
  "grid_cell e g station_records max_months first_year radius arc subbox =
     (let c = pole_snap (centre g subbox);
          contributors = incircle station_records arc (fst c) (snd c);
          subbox_series = py_repeat MISSING max_months
      in case contributors of
           [] \<Rightarrow> \<lparr> cell_series = subbox_series, cell_n = None, cell_box = subbox,
                   cell_stations = 0, cell_station_months = 0, cell_d = MISSING \<rparr>
         | (record, wt) # rest \<Rightarrow>
             (case seed max_months record wt of
                (subbox_series, weight) \<Rightarrow>
                  (case add_stations e max_months
                          (subbox_series, weight, st_good_count record, 1, wt) rest of
                     (subbox_series, weight, total_good_months, total_stations, max_weight) \<Rightarrow>
                       \<lparr> cell_series =
                           anomalize e subbox_series (gridding_reference_period e) first_year,
                         cell_n = Some max_months, cell_box = subbox,
                         cell_stations = total_stations,
                         cell_station_months = total_good_months,
                         cell_d = radius * (1 - max_weight) \<rparr>)))"

text \<open>
  The generator: the cells of all subboxes of all regions, in order. The count
  of empty cells of a region is kept for the progress messages only.
\<close>

definition iter_subbox_grid ::
  "env \<Rightarrow> geometry \<Rightarrow> station_record list \<Rightarrow> int \<Rightarrow> int \<Rightarrow> real \<Rightarrow> gridcell list" where
  "iter_subbox_grid e g station_records max_months first_year radius =
     (let station_records = sorted_py_reverse st_good_count station_records;
          arc = radius / earth_radius g
      in concat (map (\<lambda>(region_box, subboxes).
                   map (grid_cell e g station_records max_months first_year radius arc) subboxes)
                (gridsub g)))"

text \<open>
  The contributors after the first one, each with the number of months its
  merge added: the same calls of \<^verbatim>\<open>combine\<close> as in \<open>add_stations\<close>, kept as a
  list.
\<close>

fun merge_trace ::
  "env \<Rightarrow> int \<Rightarrow> series \<times> series \<Rightarrow> (station_record \<times> real) list \<Rightarrow>
   (station_record \<times> real \<times> int) list" where
  "merge_trace e max_months (subbox_series, weight) [] = []"
| "merge_trace e max_months (subbox_series, weight) ((record, wt) # rest) =
     (case combine e subbox_series weight
             (py_slice_assign (py_repeat MISSING max_months)
                (rel_first_month record - 1) (rel_last_month record) (st_series record))
             (Scalar wt) (gridding_min_overlap e) of
        (subbox_series', weight', months) \<Rightarrow>
          (record, wt, sum_list months) # merge_trace e max_months (subbox_series', weight') rest)"

text \<open>All subboxes in the order in which the generator visits them.\<close>

definition all_subboxes :: "geometry \<Rightarrow> box list" where
  "all_subboxes g = concat (map (\<lambda>(region_box, subboxes). subboxes) (gridsub g))"

text \<open>
  The contributors of a subbox: what \<^verbatim>\<open>list(incircle(station_records, arc, *centre))\<close>
  is inside \<open>iter_subbox_grid\<close> for that subbox.
\<close>

definition contributors_of ::
  "geometry \<Rightarrow> station_record list \<Rightarrow> real \<Rightarrow> box \<Rightarrow> (station_record \<times> real) list" where
  "contributors_of g station_records radius subbox =
     (let c = pole_snap (centre g subbox)
      in incircle (sorted_py_reverse st_good_count station_records)
           (radius / earth_radius g) (fst c) (snd c))"

text \<open>
  The weights of the contributors whose merge added a month, in a trace of
  \<open>merge_trace\<close>.
\<close>

definition merged_weights :: "(station_record \<times> real \<times> int) list \<Rightarrow> real list" where
  "merged_weights tr = map (\<lambda>(record, wt, k). wt) (filter (\<lambda>(record, wt, k). k \<noteq> 0) tr)"

subsection \<open>step5.subbox_to_box\<close>

text \<open>
  A cell as step 5 reads it: \<open>sb_box\<close> is \<^verbatim>\<open>cell.box\<close>, \<open>sb_series\<close> is
  \<^verbatim>\<open>cell.series\<close> (and \<^verbatim>\<open>len(cell)\<close> its length), \<open>sb_good_count\<close> is
  \<^verbatim>\<open>cell.good_count\<close>, \<open>sb_first_year\<close> is \<^verbatim>\<open>cell.first_year\<close> and \<open>sb_uid\<close>
  is \<^verbatim>\<open>cell.uid\<close>.
\<close>

record subbox =
  sb_uid :: string
  sb_box :: box
  sb_series :: series
  sb_good_count :: int
  sb_first_year :: int

text \<open>
  \<^verbatim>\<open>whichbox\<close>: the first box that contains the centre of the cell; the loop
  falls off its end, and the function returns \<^verbatim>\<open>None\<close>, when no box does.
\<close>

fun whichbox :: "geometry \<Rightarrow> box list \<Rightarrow> box \<Rightarrow> box option" where
  "whichbox g [] cell = None"
| "whichbox g (b # boxes) cell =
     (case centre g cell of
        (lat, lon) \<Rightarrow>
          (case b of
             (s, n, w, e) \<Rightarrow>
               if s \<le> lat \<and> lat < n \<and> w \<le> lon \<and> lon < e then Some b
               else whichbox g boxes cell))"

text \<open>
  "Partition the cells into the boxes": \<^verbatim>\<open>contributordict[box].append(cell)\<close>.
  The keys of the dictionary are the boxes, so the key \<^verbatim>\<open>None\<close> of a cell that
  is in no box raises KeyError.
\<close>

fun partition_cells ::
  "geometry \<Rightarrow> box list \<Rightarrow> (box \<rightharpoonup> subbox list) \<Rightarrow> subbox list \<Rightarrow>
   py_error + (box \<rightharpoonup> subbox list)" where
  "partition_cells g boxes contributordict [] = Inr contributordict"
| "partition_cells g boxes contributordict (cell # cells) =
     (case whichbox g boxes (sb_box cell) of
        None \<Rightarrow> Inl KeyError
      | Some b \<Rightarrow>
          (case contributordict b of
             None \<Rightarrow> Inl KeyError
           | Some l \<Rightarrow> partition_cells g boxes (contributordict(b \<mapsto> l @ [cell])) cells))"

definition padded_series :: "meta \<Rightarrow> subbox \<Rightarrow> series" where
  "padded_series m s =
     (let result = py_repeat MISSING (monm m);
          offset = 12 * (sb_first_year s - yrbeg m)
      in py_slice_assign result offset (offset + int (length (sb_series s))) (sb_series s))"

text \<open>The loop \<^verbatim>\<open>for cell in contributors[1:]\<close>.\<close>

fun combine_cells :: "env \<Rightarrow> meta \<Rightarrow> series \<times> series \<Rightarrow> subbox list \<Rightarrow> series \<times> series" where
  "combine_cells e m (box_series, box_weight) [] = (box_series, box_weight)"
| "combine_cells e m (box_series, box_weight) (cell # cells) =
     (if sb_good_count cell \<ge> subbox_min_valid e
      then (case combine e box_series box_weight (padded_series m cell) (Scalar 1)
                   (box_min_overlap e) of
              (box_series', box_weight', _) \<Rightarrow>
                combine_cells e m (box_series', box_weight') cells)
      else combine_cells e m (box_series, box_weight) cells)"

text \<open>
  The loop \<^verbatim>\<open>for idx, box in enumerate(boxes)\<close>: the boxes yielded and how the
  generator ends. \<^verbatim>\<open>contributors[0]\<close> of an empty list raises IndexError.
\<close>

fun box_loop ::
  "env \<Rightarrow> meta \<Rightarrow> (box \<rightharpoonup> subbox list) \<Rightarrow> box list \<Rightarrow> boxed list \<times> gen_end" where
  "box_loop e m contributordict [] = ([], Exhausted)"
| "box_loop e m contributordict (b # boxes) =
     (case contributordict b of
        None \<Rightarrow> ([], Raised KeyError)
      | Some l \<Rightarrow>
          (case sorted_py_reverse sb_good_count l of
             [] \<Rightarrow> ([], Raised IndexError)
           | best # rest \<Rightarrow>
               (let box_series = padded_series m best;
                    box_weight = map (\<lambda>a. if valid a then 1 else 0) box_series
                in case combine_cells e m (box_series, box_weight) rest of
                     (box_series, box_weight) \<Rightarrow>
                       (let box_series =
                              anomalize e box_series (subbox_reference_period e) (yrbeg m);
                            ngood = count_valid box_series
                        in case box_loop e m contributordict boxes of
                             (ys, r) \<Rightarrow> ((box_series, box_weight, ngood, b) # ys, r)))))"

definition subbox_to_box ::
  "env \<Rightarrow> geometry \<Rightarrow> meta \<Rightarrow> subbox list \<Rightarrow> boxed list \<times> gen_end" where
  "subbox_to_box e g m cells =
     (let boxes = grid g;
          contributordict = map_of (map (\<lambda>b. (b, [])) boxes)
      in case partition_cells g boxes contributordict cells of
           Inl err \<Rightarrow> ([], Raised err)
         | Inr contributordict \<Rightarrow> box_loop e m contributordict boxes)"

text \<open>The cells whose centre \<^verbatim>\<open>whichbox\<close> puts into the box \<open>b\<close>.\<close>

definition cells_in :: "geometry \<Rightarrow> subbox list \<Rightarrow> box \<Rightarrow> subbox list" where
  "cells_in g cells b = filter (\<lambda>c. whichbox g (grid g) (sb_box c) = Some b) cells"

subsection \<open>step5.annzon\<close>

text \<open>
  The argument \<^verbatim>\<open>alternate\<close>: \<open>alt_global\<close> is \<^verbatim>\<open>alternate['global']\<close> (0 for a
  false value) and \<open>alt_hemi\<close> is \<^verbatim>\<open>alternate['hemi']\<close>.
\<close>

record alternate =
  alt_global :: int
  alt_hemi :: bool

text \<open>
  \<^verbatim>\<open>list(zip(*[iter(xs)] * 12))\<close>: consecutive blocks of 12, an incomplete
  last block dropped.
\<close>

definition grouper :: "'a list \<Rightarrow> 'a list list" where
  "grouper xs = map (\<lambda>i. take 12 (drop (12 * i) xs)) [0..<length xs div 12]"

text \<open>The first error of a list of results, or all the values.\<close>

fun collect :: "(py_error + 'a) list \<Rightarrow> py_error + 'a list" where
  "collect [] = Inr []"
| "collect (x # xs) =
     (case x of
        Inl err \<Rightarrow> Inl err
      | Inr v \<Rightarrow> (case collect xs of Inl err \<Rightarrow> Inl err | Inr vs \<Rightarrow> Inr (v # vs)))"

text \<open>The loop over the months of one year: (anniy, mon).\<close>

fun year_sum :: "real \<times> int \<Rightarrow> real list \<Rightarrow> real \<times> int" where
  "year_sum (anniy, mon) [] = (anniy, mon)"
| "year_sum (anniy, mon) (v # vs) =
     (if v = MISSING then year_sum (anniy, mon) vs
      else year_sum (anniy + v, mon + 1) vs)"

text \<open>
  The annual value of one year of one zone; the entry of \<^verbatim>\<open>ann\<close> keeps its
  initial \<^verbatim>\<open>MISSING\<close> below the threshold. With a threshold that is not positive
  a year without valid months divides by zero.
\<close>

definition annual_mean :: "int \<Rightarrow> real list \<Rightarrow> py_error + real" where
  "annual_mean min_months year =
     (case year_sum (0, 0) year of
        (anniy, mon) \<Rightarrow>
          if mon \<ge> min_months
          then (if mon = 0 then Inl ZeroDivisionError else Inr (anniy / of_int mon))
          else Inr MISSING)"

text \<open>
  "Find (compute) the annual means": \<^verbatim>\<open>data[zone][iy]\<close> raises IndexError when
  the zone has fewer than \<^verbatim>\<open>iyrs\<close> complete years.
\<close>

definition annual_means :: "int \<Rightarrow> nat \<Rightarrow> series list list \<Rightarrow> py_error + series list" where
  "annual_means min_months iyrs data =
     collect (map (\<lambda>dz.
        collect (map (\<lambda>iy. if iy < length dz then annual_mean min_months (dz ! iy)
                            else Inl IndexError) [0..<iyrs])) data)"

text \<open>
  The loop \<^verbatim>\<open>for z, w in zip(zone, wtsp)\<close> with its \<^verbatim>\<open>break\<close> and \<^verbatim>\<open>else\<close>: the
  target keeps its \<^verbatim>\<open>MISSING\<close> at the first missing value, and becomes
  \<^verbatim>\<open>0.1 * glob\<close> when the loop runs to its end.
\<close>

fun blend :: "real \<Rightarrow> (real \<times> real) list \<Rightarrow> real" where
  "blend glob [] = 0.1 * glob"
| "blend glob ((v, w) # rest) = (if v = MISSING then MISSING else blend (glob + v * w) rest)"

text \<open>
  "Alternate global mean". The two loops over the years assign the entries of
  the last zone one by one from other zones (8, 9, 10 or 8, 3, 4, 10), so each
  new entry is a function of the arrays before the loop.
\<close>

definition alternate_global ::
  "int \<Rightarrow> nat \<Rightarrow> series list list \<times> series list \<Rightarrow>
   py_error + (series list list \<times> series list)" where
  "alternate_global glb iyrs da =
     (case da of
        (data, ann) \<Rightarrow>
          if glb = 0 then Inr (data, ann)
          else if glb \<noteq> 1 \<and> glb \<noteq> 2 then Inl AssertionError
          else
            (let zone = (if glb = 1 then [8, 9, 9, 10] else [8, 3, 4, 10]);
                 wtsp = [3, 2, 2, 3];
                 last = length ann - 1;
                 ann' = ann[last :=
                   map (\<lambda>iy. blend 0 (zip (map (\<lambda>z. ann ! z ! iy) zone) wtsp)) [0..<iyrs]];
                 data' = data[last :=
                   map (\<lambda>iy. map (\<lambda>m. blend 0 (zip (map (\<lambda>z. data ! z ! iy ! m) zone) wtsp))
                                 [0..<12]) [0..<iyrs]
                   @ drop iyrs (data ! last)]
             in Inr (data', ann')))"

text \<open>"Alternate hemispheric means", for \<^verbatim>\<open>ihem\<close> 0 and then 1.\<close>

definition hemi_value :: "real \<Rightarrow> real \<Rightarrow> real" where
  "hemi_value a b = (if a \<noteq> MISSING \<and> b \<noteq> MISSING then 0.4 * a + 0.6 * b else MISSING)"

definition alternate_hemi_one ::
  "nat \<Rightarrow> nat \<Rightarrow> series list list \<times> series list \<Rightarrow> series list list \<times> series list" where
  "alternate_hemi_one ihem iyrs da =
     (case da of
        (data, ann) \<Rightarrow>
          (let ann' = ann[ihem + 11 :=
                 map (\<lambda>iy. hemi_value (ann ! (ihem + 3) ! iy) (ann ! (2 * ihem + 8) ! iy))
                   [0..<iyrs]];
               data' = data[ihem + 11 :=
                 map (\<lambda>iy. map (\<lambda>m. hemi_value (data ! (ihem + 3) ! iy ! m)
                                                    (data ! (2 * ihem + 8) ! iy ! m))
                               [0..<12]) [0..<iyrs]
                 @ drop iyrs (data ! (ihem + 11))]
           in (data', ann')))"

definition alternate_hemi ::
  "nat \<Rightarrow> series list list \<times> series list \<Rightarrow> series list list \<times> series list" where
  "alternate_hemi iyrs da = alternate_hemi_one 1 iyrs (alternate_hemi_one 0 iyrs da)"

text \<open>\<^verbatim>\<open>if alternate is None: alternate = {"global": 2, "hemi": True}\<close>\<close>

definition default_alternate :: "alternate option \<Rightarrow> alternate" where
  "default_alternate alternate =
     (case alternate of
        None \<Rightarrow> \<lparr> alt_global = 2, alt_hemi = True \<rparr>
      | Some a \<Rightarrow> a)"

text \<open>
  \<^verbatim>\<open>annzon\<close>. The stream must hold 16 zones, or \<^verbatim>\<open>next\<close> raises StopIteration.
  The result is (meta, data, wt, ann, zone_annual_min_months).
\<close>

definition annzon ::
  "env \<Rightarrow> meta \<Rightarrow> (series \<times> series) list \<Rightarrow> alternate option \<Rightarrow>
   py_error + (meta \<times> series list list \<times> series list list \<times> series list \<times> int)" where
  "annzon e m zoned_averages alternate =
     (let alternate = default_alternate alternate;
          zones = 16;
          iyrs = nat (monm m div 12)
      in if length zoned_averages < zones then Inl StopIteration
         else
           (let read = take zones zoned_averages;
                data = map (\<lambda>(tdata, twt). grouper tdata) read;
                wt = map (\<lambda>(tdata, twt). grouper twt) read
            in case annual_means (zone_annual_min_months e) iyrs data of
                 Inl err \<Rightarrow> Inl err
               | Inr ann \<Rightarrow>
                   (case alternate_global (alt_global alternate) iyrs (data, ann) of
                      Inl err \<Rightarrow> Inl err
                    | Inr da \<Rightarrow>
                        (case (if alt_hemi alternate then alternate_hemi iyrs da else da) of
                           (data, ann) \<Rightarrow>
                             Inr (m, data, wt, ann, zone_annual_min_months e)))))"

text \<open>
  The annual value that the annual-mean pass gives a year: the mean of the
  valid months when they are at least \<open>min_months\<close>, else the missing marker.
\<close>

definition year_value :: "int \<Rightarrow> real list \<Rightarrow> real" where
  "year_value min_months year =
     (let vs = filter valid year
      in if int (length vs) \<ge> min_months then sum_list vs / real (length vs) else MISSING)"

text \<open>The months of year \<open>iy\<close> in the monthly series of a zone.\<close>

definition year_of :: "series \<Rightarrow> nat \<Rightarrow> real list" where
  "year_of tdata iy = take 12 (drop (12 * iy) tdata)"

text \<open>
  An input that \<^verbatim>\<open>annzon\<close> reads without an exception: 16 zones in the stream,
  each with the complete years of the run, and no division by zero in the
  annual means, which needs a positive threshold or a valid month in every year.
\<close>

definition annzon_input :: "env \<Rightarrow> meta \<Rightarrow> (series \<times> series) list \<Rightarrow> bool" where
  "annzon_input e m zoned_averages \<longleftrightarrow>
     16 \<le> length zoned_averages \<and>
     list_all (\<lambda>(tdata, twt). 12 * nat (monm m div 12) \<le> length tdata)
       (take 16 zoned_averages) \<and>
     (1 \<le> zone_annual_min_months e \<or>
      list_all (\<lambda>(tdata, twt). \<forall>iy<nat (monm m div 12). \<exists>v\<in>set (year_of tdata iy). valid v)
        (take 16 zoned_averages))"

text \<open>The zones whose annual series an enabled alternate estimator replaces.\<close>

definition replaced :: "alternate \<Rightarrow> nat \<Rightarrow> bool" where
  "replaced a z \<longleftrightarrow> (alt_global a \<noteq> 0 \<and> z = 15) \<or> (alt_hemi a \<and> (z = 11 \<or> z = 12))"

text \<open>
  The blend of four zone values as the spec words it: weights 3, 2, 2, 3 and the
  factor 0.1 when all four are valid, the missing marker when one is missing.
\<close>

definition blend_spec :: "real \<Rightarrow> real \<Rightarrow> real \<Rightarrow> real \<Rightarrow> real" where
  "blend_spec za zb zc zd =
     (if za = MISSING \<or> zb = MISSING \<or> zc = MISSING \<or> zd = MISSING then MISSING
      else 0.1 * (3 * za + 2 * zb + 2 * zc + 3 * zd))"

text \<open>
  The array \<^verbatim>\<open>data\<close> after the zones are read, and the array \<^verbatim>\<open>ann\<close> as the
  annual-mean pass fills it, before the alternate estimators.
\<close>

definition data_read :: "(series \<times> series) list \<Rightarrow> series list list" where
  "data_read zoned_averages = map (\<lambda>(tdata, twt). grouper tdata) (take 16 zoned_averages)"

definition ann_pass :: "env \<Rightarrow> meta \<Rightarrow> (series \<times> series) list \<Rightarrow> series list" where
  "ann_pass e m zoned_averages =
     map (\<lambda>dz. map (\<lambda>iy. year_value (zone_annual_min_months e) (dz ! iy))
                  [0..<nat (monm m div 12)])
       (data_read zoned_averages)"

text \<open>
  The annual value of year \<open>iy\<close> of zone \<open>z\<close>, and the value of month \<open>mo\<close> of
  that year, as the zone's monthly series in the input stream gives them.
\<close>

definition zone_annual :: "env \<Rightarrow> (series \<times> series) list \<Rightarrow> nat \<Rightarrow> nat \<Rightarrow> real" where
  "zone_annual e zoned_averages z iy =
     year_value (zone_annual_min_months e) (year_of (fst (zoned_averages ! z)) iy)"

definition zone_month :: "(series \<times> series) list \<Rightarrow> nat \<Rightarrow> nat \<Rightarrow> nat \<Rightarrow> real" where
  "zone_month zoned_averages z iy mo = year_of (fst (zoned_averages ! z)) iy ! mo"

text \<open>The array \<^verbatim>\<open>ann\<close> of a result of \<^verbatim>\<open>annzon\<close>.\<close>

definition returned_ann ::
  "py_error + (meta \<times> series list list \<times> series list list \<times> series list \<times> int) \<Rightarrow> series list" where
  "returned_ann r = (case r of Inl err \<Rightarrow> [] | Inr (m, data, wt, ann, k) \<Rightarrow> ann)"

subsection \<open>A concrete environment for running the model\<close>

text \<open>
  Modelled from the spec: \<^verbatim>\<open>series.combine\<close> of \<^verbatim>\<open>steps/series.py\<close>, which is
  absent. The overlap is the number of months in which both the composite and
  the incoming series are valid. Below the threshold the incoming series is
  ignored entirely. Otherwise every valid incoming month is merged: the
  weighted mean where the composite has data, the incoming value at the incoming
  weight where it has none. The third result counts, per calendar month, the
  incoming months that were merged.
\<close>

definition combine_spec ::
  "series \<Rightarrow> series \<Rightarrow> series \<Rightarrow> weight_arg \<Rightarrow> int \<Rightarrow> series \<times> series \<times> int list" where
  "combine_spec composite weight new new_weight min_overlap =
     (let n = min (length composite) (length new);
          nw = (case new_weight of Scalar x \<Rightarrow> replicate n x | Array ws \<Rightarrow> ws);
          merged = (\<lambda>i. i < n \<and> valid (new ! i));
          overlap = int (length (filter (\<lambda>i. valid (composite ! i) \<and> valid (new ! i)) [0..<n]))
      in if overlap < min_overlap then (composite, weight, replicate 12 0)
         else (map (\<lambda>i. if merged i
                          then (if valid (composite ! i)
                                then (weight ! i * composite ! i + nw ! i * new ! i)
                                       / (weight ! i + nw ! i)
                                else new ! i)
                          else composite ! i) [0..<length composite],
               map (\<lambda>i. if merged i
                          then (if valid (composite ! i) then weight ! i + nw ! i else nw ! i)
                          else weight ! i) [0..<length composite],
               map (\<lambda>m. int (length (filter (\<lambda>i. i mod 12 = m \<and> valid (new ! i)) [0..<n])))
                 [0..<12]))"

text \<open>
  Modelled from the spec: \<^verbatim>\<open>series.anomalize\<close> of \<^verbatim>\<open>steps/series.py\<close>, which is
  absent. For each calendar month the mean of the valid values of the reference
  period (both years included) is subtracted from every valid value of that
  calendar month; a calendar month without valid reference data is left as it is.
\<close>

definition anomalize_spec :: "series \<Rightarrow> int \<times> int \<Rightarrow> int \<Rightarrow> series" where
  "anomalize_spec s period base_year =
     map (\<lambda>i.
        let ref = filter valid
                    (map (\<lambda>j. s ! j)
                       (filter (\<lambda>j. j mod 12 = i mod 12 \<and>
                                     fst period \<le> base_year + int (j div 12) \<and>
                                     base_year + int (j div 12) \<le> snd period)
                          [0..<length s]))
        in if valid (s ! i) \<and> ref \<noteq> [] then s ! i - sum_list ref / real (length ref)
           else s ! i)
       [0..<length s]"

text \<open>
  Example values for the constants of \<^verbatim>\<open>parameters.py\<close>, which is absent, together
  with the two functions above.
\<close>

definition example_env :: env where
  "example_env =
     \<lparr> combine = combine_spec, anomalize = anomalize_spec,
       gridding_min_overlap = 20, gridding_reference_period = (1951, 1980),
       subbox_min_valid = 240, subbox_reference_period = (1961, 1990),
       box_min_overlap = 20, box_reference_period = (1951, 1980),
       zone_annual_min_months = 6 \<rparr>"

definition example_meta :: meta where
  "example_meta = \<lparr> yrbeg = 1880, monm = 12 \<rparr>"

text \<open>A box of the stream with one valid month.\<close>

definition example_boxed :: boxed where
  "example_boxed = ([1, MISSING, MISSING, MISSING, MISSING, MISSING,
                     MISSING, MISSING, MISSING, MISSING, MISSING, MISSING],
                    [1, 0, 0, 0, 0, 0, 0, 0, 0, 0, 0, 0], 1, (-90, 90, -180, 180))"

text \<open>
  A geometry with one region of one subbox centred on latitude 0, longitude 0;
  the centre of a region is taken as the midpoint of its bounds.
\<close>

definition example_geometry :: geometry where
  "example_geometry =
     \<lparr> grid = [(- 90, 90, - 180, 180)],
       gridsub = [((- 90, 90, - 180, 180), [(- 1, 1, - 1, 1)])],
       centre = (\<lambda>(s, n, w, e). ((s + n) / 2, (w + e) / 2)),
       earth_radius = 6371 \<rparr>"

text \<open>
  Three stations with one month of data each: on the centre of the subbox, 60
  degrees north of it, and on the opposite side of the globe.
\<close>

definition station_centre :: station_record where
  "station_centre =
     \<lparr> st_uid = ''centre'', st_lat = 0, st_lon = 0, st_series = [7],
       st_good_count = 1, rel_first_month = 1, rel_last_month = 1 \<rparr>"

definition station_north :: station_record where
  "station_north =
     \<lparr> st_uid = ''north'', st_lat = 60, st_lon = 0, st_series = [5],
       st_good_count = 1, rel_first_month = 1, rel_last_month = 1 \<rparr>"

definition station_far :: station_record where
  "station_far =
     \<lparr> st_uid = ''far'', st_lat = 0, st_lon = 180, st_series = [3],
       st_good_count = 1, rel_first_month = 1, rel_last_month = 1 \<rparr>"

text \<open>
  A geometry of two boxes, the northern and the southern hemisphere, a cell in
  the northern one and a cell centred on longitude 180, which no box contains.
\<close>

definition example_hemispheres :: geometry where
  "example_hemispheres =
     \<lparr> grid = [(0, 90, - 180, 180), (- 90, 0, - 180, 180)],
       gridsub = [((0, 90, - 180, 180), [(10, 20, 10, 20)]),
                  ((- 90, 0, - 180, 180), [(- 20, - 10, 10, 20)])],
       centre = (\<lambda>(s, n, w, e). ((s + n) / 2, (w + e) / 2)),
       earth_radius = 6371 \<rparr>"

definition cell_north :: subbox where
  "cell_north =
     \<lparr> sb_uid = ''north'', sb_box = (10, 20, 10, 20), sb_series = [1, 2],
       sb_good_count = 2, sb_first_year = 1880 \<rparr>"

definition cell_dateline :: subbox where
  "cell_dateline =
     \<lparr> sb_uid = ''dateline'', sb_box = (10, 20, 175, 185), sb_series = [1, 2],
       sb_good_count = 2, sb_first_year = 1880 \<rparr>"

text \<open>
  Sixteen zones of one year each: zone 0 with six valid months, zone 1 with
  five, and zone k, from 2 on, with the value k in every month.
\<close>

definition example_zones :: "(series \<times> series) list" where
  "example_zones =
     ([1, 2, 3, 4, 5, 6, MISSING, MISSING, MISSING, MISSING, MISSING, MISSING], replicate 12 1) #
     ([1, 2, 3, 4, 5, MISSING, MISSING, MISSING, MISSING, MISSING, MISSING, MISSING], replicate 12 1) #
     map (\<lambda>k. (replicate 12 (real k), replicate 12 1)) [2..<16]"

text \<open>The same zones with no data at all in zone 3.\<close>

definition example_zones_gap :: "(series \<times> series) list" where
  "example_zones_gap =
     ([1, 2, 3, 4, 5, 6, MISSING, MISSING, MISSING, MISSING, MISSING, MISSING], replicate 12 1) #
     ([1, 2, 3, 4, 5, MISSING, MISSING, MISSING, MISSING, MISSING, MISSING, MISSING], replicate 12 1) #
     (replicate 12 2, replicate 12 1) #
     (replicate 12 MISSING, replicate 12 1) #
     map (\<lambda>k. (replicate 12 (real k), replicate 12 1)) [4..<16]"

section \<open>Properties of sort_perm\<close>

lemma sort_key_Nil_iff: "sort_key f xs = [] \<longleftrightarrow> xs = []"
  by (metis length_sort length_0_conv)

lemma snd_zip_upt: "map snd (zip a [0..<length a]) = [0..<length a]"
  by (rule map_snd_zip) simp

lemma sort_perm_nonempty:
  "a \<noteq> [] \<Longrightarrow> \<exists>ds ix. sort_perm a = Inr (ds, ix)"
  by (simp add: sort_perm_def sorted_py_def Let_def sort_key_Nil_iff)

lemma sort_perm_lengths:
  "sort_perm a = Inr (ds, ix) \<Longrightarrow> length ds = length a \<and> length ix = length a"
  by (auto simp: sort_perm_def sorted_py_def Let_def split: if_splits)

lemma sort_perm_index_set:
  "sort_perm a = Inr (ds, ix) \<Longrightarrow> set ix = {0..<length a}"
proof -
  assume "sort_perm a = Inr (ds, ix)"
  then have "ix = map snd (sort_key (\<lambda>x. int (snd x) - fst x) (zip a [0..<length a]))"
    by (auto simp: sort_perm_def sorted_py_def Let_def split: if_splits)
  then have "set ix = set (map snd (zip a [0..<length a]))"
    by (simp only: set_map set_sort)
  then show ?thesis
    by (simp only: snd_zip_upt set_upt)
qed

lemma sort_perm_distinct:
  "sort_perm a = Inr (ds, ix) \<Longrightarrow> distinct ix"
proof -
  assume "sort_perm a = Inr (ds, ix)"
  then have ix: "ix = map snd (sort_key (\<lambda>x. int (snd x) - fst x) (zip a [0..<length a]))"
    by (auto simp: sort_perm_def sorted_py_def Let_def split: if_splits)
  have "distinct (map snd (zip a [0..<length a]))"
    by (simp only: snd_zip_upt distinct_upt)
  then show ?thesis
    unfolding ix by (simp only: distinct_map set_sort distinct_sort)
qed

lemma sort_perm_lookup:
  assumes "sort_perm a = Inr (ds, ix)" and "x < length a"
  shows "a ! (ix ! x) = ds ! x"
proof -
  let ?z = "sort_key (\<lambda>x. int (snd x) - fst x) (zip a [0..<length a])"
  from assms(1) have ds: "ds = map fst ?z" and ix: "ix = map snd ?z"
    by (auto simp: sort_perm_def sorted_py_def Let_def split: if_splits)
  have len: "length ?z = length a" by simp
  have "?z ! x \<in> set ?z"
    using assms(2) len by (metis nth_mem)
  then have "?z ! x \<in> set (zip a [0..<length a])" by simp
  then obtain i where "i < length a" and "?z ! x = (a ! i, i)"
    by (auto simp: set_zip)
  then show ?thesis
    using assms(2) len by (simp add: ds ix)
qed

lemma sort_perm_ties:
  assumes sp: "sort_perm a = Inr (ds, ix)"
    and xy: "x < y" "y < length a"
    and eq: "ds ! x = ds ! y"
  shows "ix ! x < ix ! y"
proof -
  let ?key = "\<lambda>p :: int \<times> nat. int (snd p) - fst p"
  let ?z = "sort_key ?key (zip a [0..<length a])"
  from sp have ds: "ds = map fst ?z" and ix: "ix = map snd ?z"
    by (auto simp: sort_perm_def sorted_py_def Let_def split: if_splits)
  have len: "length ?z = length a" by simp
  have "sorted (map ?key ?z)" by (rule sorted_sort_key)
  then have "map ?key ?z ! x \<le> map ?key ?z ! y"
    using xy len by (intro sorted_nth_mono) simp_all
  then have "int (ix ! x) - ds ! x \<le> int (ix ! y) - ds ! y"
    using xy len by (simp add: ds ix)
  with eq have "ix ! x \<le> ix ! y" by simp
  moreover have "ix ! x \<noteq> ix ! y"
    using sort_perm_distinct[OF sp] sort_perm_lengths[OF sp] xy
    by (simp add: nth_eq_iff_index_eq)
  ultimately show ?thesis by simp
qed

text \<open>
  C1 (sort_perm returns the values in descending order, with the permutation and a
  stable tie-break). The sort key of the code is index minus value, not the value:
  on the list [5, 6] both keys are -5, the stable sort leaves the order alone, and
  the returned values 5, 6 are ascending. The docstring promises descending order.
  The rest of the claim holds: the indexes are a permutation of the positions
  (\<open>sort_perm_index_set\<close>, \<open>sort_perm_distinct\<close>), they look the returned values
  up in the input (\<open>sort_perm_lookup\<close>), and equal values keep their order
  (\<open>sort_perm_ties\<close>).
\<close>

theorem sort_perm_not_descending:
  "sort_perm [5, 6] = Inr ([5, 6], [0, 1]) \<and> \<not> descending [5, 6]"
  by (simp add: sort_perm_def sorted_py_def descending_def Let_def upt_rec)

section \<open>Properties of zonav\<close>

text \<open>
  C4 (the early exit of the band loop skips only boxes without valid months, so
  every box with a valid month is combined into the band). The exit trusts
  sort_perm to have put the lengths in descending order, which it does not do:
  for the lengths 3, 0, 0, 1 the keys index - value are -3, 1, 2, 2, the ranked
  lengths are 3, 0, 0, 1, the loop leaves at rank 1, and the fourth box, which has
  a valid month, is never handed to combine: the band is the first box alone,
  whatever combine does and whatever the fourth box holds.
\<close>

theorem zonav_band_early_exit_drops_box:
  "zonav_band e m [(s0, w0, 3, b0), (s1, w1, 0, b1), (s2, w2, 0, b2), (s3, w3, 1, b3)] =
     Inr (anomalize e s0 (box_reference_period e) (yrbeg m), w0,
          count_valid (anomalize e s0 (box_reference_period e) (yrbeg m)))"
  by (simp add: zonav_band_def sort_perm_def sorted_py_def Let_def upt_rec)

lemma next_boxes_eq:
  "next_boxes n s = (if length s < n then Inl StopIteration else Inr (take n s, drop n s))"
  by (induction n s rule: next_boxes.induct) auto

lemma zonav_band_total: "\<exists>b. zonav_band e m g = Inr b"
proof (cases "sum_list (map (\<lambda>(s, w, l, b). l) g) = 0")
  case True
  then show ?thesis by (simp add: zonav_band_def Let_def)
next
  case False
  then have "map (\<lambda>(s, w, l, b). l) g \<noteq> []" by auto
  from sort_perm_nonempty[OF this] obtain d ix where "sort_perm (map (\<lambda>(s, w, l, b). l) g) = Inr (d, ix)" by blast
  with False show ?thesis by (simp add: zonav_band_def Let_def split: prod.splits)
qed

lemma zonav_bands_ok:
  "sum_list ns \<le> length s \<Longrightarrow>
   \<exists>bs. zonav_bands e m ns s = (bs, Inr (drop (sum_list ns) s)) \<and>
        list_all2 (\<lambda>g b. zonav_band e m g = Inr b) (groups ns s) bs"
proof (induction ns arbitrary: s)
  case Nil
  then show ?case by simp
next
  case (Cons n ns)
  then have le: "n \<le> length s" and rest: "sum_list ns \<le> length (drop n s)" by auto
  obtain b where b: "zonav_band e m (take n s) = Inr b"
    using zonav_band_total by blast
  from Cons.IH[OF rest] obtain bs where
    bs: "zonav_bands e m ns (drop n s) = (bs, Inr (drop (sum_list ns) (drop n s)))"
    and all: "list_all2 (\<lambda>g b. zonav_band e m g = Inr b) (groups ns (drop n s)) bs"
    by blast
  show ?case
    using le b bs all by (simp add: next_boxes_eq add.commute)
qed

lemma find_first_band_Some:
  "\<exists>j\<in>set js. iord ! j \<in> z \<Longrightarrow> \<exists>j1. find_first_band iord z js = Some j1"
  by (induction js) auto

lemma compound_zones_ok:
  "\<forall>z\<in>set zs. \<exists>j<bands. iord ! j \<in> z \<Longrightarrow>
   \<exists>ys. compound_zones e m avg wt iord bands k zs = (ys, Exhausted) \<and> length ys = length zs"
proof (induction zs arbitrary: k)
  case Nil
  then show ?case by simp
next
  case (Cons z zs)
  then have "\<exists>j\<in>set [0..<bands]. iord ! j \<in> z" by auto
  from find_first_band_Some[OF this] obtain j1 where j1: "find_first_band iord z [0..<bands] = Some j1" by blast
  from Cons obtain ys where "compound_zones e m avg wt iord bands (Suc k) zs = (ys, Exhausted)" "length ys = length zs"
    by (metis list.set_intros(2))
  with j1 show ?case by (simp add: Let_def split: prod.splits)
qed

lemma zone_has_band:
  assumes "set iord = {0..<8}" "length iord = 8" "z \<in> set (snd zones)"
  shows "\<exists>j<8. iord ! j \<in> z"
proof -
  from assms(3) have "1 \<in> z \<or> 3 \<in> z \<or> 5 \<in> z"
    by (auto simp: zones_def Let_def)
  then obtain b where "b \<in> z" "b < 8"
    by fastforce
  then have "b \<in> set iord" using assms(1) by simp
  then obtain j where "j < length iord" "iord ! j = b" by (auto simp: in_set_conv_nth)
  then show ?thesis using assms(2) \<open>b \<in> z\<close> by auto
qed

lemma length_groups: "length (groups ns s) = length ns"
  by (induction ns arbitrary: s) auto

text \<open>
  C5 (zonav reads 80 boxes in groups of 4, 8, 12, 16, 16, 12, 8, 4, one group per
  band; then a further box in the stream is an assertion failure, and an
  exhausted stream lets the compound zones follow). With exactly 80 boxes the
  generator yields the 8 bands, each computed from its group, then 8 compound
  zones, and ends normally. With more than 80 boxes it yields the same 8 bands,
  computed from the first 80 boxes, and ends with AssertionError.
\<close>

theorem zonav_partition_check:
  "(length bd = 80 \<longrightarrow>
      (\<exists>bs zs. list_all2 (\<lambda>g b. zonav_band e m g = Inr b)
                 (groups [4, 8, 12, 16, 16, 12, 8, 4] bd) bs \<and>
               length zs = 8 \<and>
               zonav e m bd = (map (\<lambda>(avg, wt, lenz). (avg, wt)) bs @ zs, Exhausted))) \<and>
   (80 < length bd \<longrightarrow>
      (\<exists>bs. list_all2 (\<lambda>g b. zonav_band e m g = Inr b)
              (groups [4, 8, 12, 16, 16, 12, 8, 4] bd) bs \<and>
            zonav e m bd = (map (\<lambda>(avg, wt, lenz). (avg, wt)) bs, Raised AssertionError)))"
proof (intro conjI impI)
  let ?sizes = "[4, 8, 12, 16, 16, 12, 8, 4] :: nat list"
  have zs: "zones = (?sizes, snd zones)"
    by (simp add: zones_def Let_def)
  have sum: "sum_list ?sizes = 80" by simp
  {
    assume len: "length bd = 80"
    then have "sum_list ?sizes \<le> length bd" by simp
    from zonav_bands_ok[OF this, of e m] obtain bs where
      bs: "zonav_bands e m ?sizes bd = (bs, Inr (drop (sum_list ?sizes) bd))"
      and all: "list_all2 (\<lambda>g b. zonav_band e m g = Inr b) (groups ?sizes bd) bs"
      by blast
    from all have lbs: "length bs = 8"
      using list_all2_lengthD length_groups by fastforce
    have rest: "drop (sum_list ?sizes) bd = []"
      using len by simp
    from lbs have "map (\<lambda>(avg, wt, lenz). lenz) bs \<noteq> []" by auto
    from sort_perm_nonempty[OF this] obtain d iord where
      sp: "sort_perm (map (\<lambda>(avg, wt, lenz). lenz) bs) = Inr (d, iord)" by blast
    have iset: "set iord = {0..<8}" and ilen: "length iord = 8"
      using sort_perm_index_set[OF sp] sort_perm_lengths[OF sp] lbs by simp_all
    have l8: "length ?sizes = 8" by simp
    have "\<forall>z\<in>set (snd zones). \<exists>j<length ?sizes. iord ! j \<in> z"
      unfolding l8 using zone_has_band[OF iset ilen] by blast
    from compound_zones_ok[OF this] obtain ys where
      ys: "compound_zones e m (map (\<lambda>(avg, wt, lenz). avg) bs) (map (\<lambda>(avg, wt, lenz). wt) bs)
             iord (length ?sizes) 0 (snd zones) = (ys, Exhausted)"
      and lys: "length ys = length (snd zones)"
      by blast
    have "length (snd zones) = 8" by (simp add: zones_def Let_def)
    with lys have lys8: "length ys = 8" by simp
    have "zonav e m bd = (map (\<lambda>(avg, wt, lenz). (avg, wt)) bs @ ys, Exhausted)"
      unfolding zonav_def
      by (subst zs) (use ys in \<open>simp add: bs rest sp del: sum_list.Cons zonav_bands.simps\<close>)
    with all lys8
    show "\<exists>bs zs. list_all2 (\<lambda>g b. zonav_band e m g = Inr b) (groups ?sizes bd) bs \<and>
               length zs = 8 \<and>
               zonav e m bd = (map (\<lambda>(avg, wt, lenz). (avg, wt)) bs @ zs, Exhausted)"
      by blast
  }
  {
    assume len: "80 < length bd"
    then have "sum_list ?sizes \<le> length bd" by simp
    from zonav_bands_ok[OF this, of e m] obtain bs where
      bs: "zonav_bands e m ?sizes bd = (bs, Inr (drop (sum_list ?sizes) bd))"
      and all: "list_all2 (\<lambda>g b. zonav_band e m g = Inr b) (groups ?sizes bd) bs"
      by blast
    have rest: "drop (sum_list ?sizes) bd \<noteq> []"
      using len by simp
    have "zonav e m bd = (map (\<lambda>(avg, wt, lenz). (avg, wt)) bs, Raised AssertionError)"
      unfolding zonav_def by (subst zs) (use rest in \<open>simp add: bs del: sum_list.Cons zonav_bands.simps\<close>)
    with all
    show "\<exists>bs. list_all2 (\<lambda>g b. zonav_band e m g = Inr b) (groups ?sizes bd) bs \<and>
            zonav e m bd = (map (\<lambda>(avg, wt, lenz). (avg, wt)) bs, Raised AssertionError)"
      by blast
  }
qed

theorem zonav_partition_check_witness:
  "length (replicate 80 example_boxed) = 80 \<and>
   snd (zonav example_env example_meta (replicate 80 example_boxed)) = Exhausted \<and>
   length (fst (zonav example_env example_meta (replicate 80 example_boxed))) = 16 \<and>
   80 < length (replicate 81 example_boxed) \<and>
   snd (zonav example_env example_meta (replicate 81 example_boxed)) = Raised AssertionError"
  using zonav_partition_check [of "replicate 80 example_boxed" example_env example_meta]
    zonav_partition_check [of "replicate 81 example_boxed" example_env example_meta]
  by (auto dest: list_all2_lengthD simp: length_groups)

section \<open>Properties of incircle\<close>

lemma cosd_law_of_cosines:
  "cosd lat lon s_lat s_lon =
     sin (s_lat * pi / 180) * sin (lat * pi / 180) +
     cos (s_lat * pi / 180) * cos (lat * pi / 180) * cos ((s_lon - lon) * pi / 180)"
proof -
  have e: "(s_lon - lon) * pi / 180 = s_lon * pi / 180 - lon * pi / 180"
    by (simp add: left_diff_distrib diff_divide_distrib)
  show ?thesis
    unfolding cosd_def Let_def e cos_diff by (rule refl)
qed

lemma dot_bounds:
  fixes a b k :: real
  assumes "- 1 \<le> k" "k \<le> 1"
  shows "- 1 \<le> sin a * sin b + cos a * cos b * k" "sin a * sin b + cos a * cos b * k \<le> 1"
proof -
  let ?p = "cos (a - b)" and ?q = "- cos (a + b)"
  let ?u = "(1 + k) / 2" and ?v = "(1 - k) / 2"
  have eq: "sin a * sin b + cos a * cos b * k = ?u * ?p + ?v * ?q"
    by (simp add: cos_diff cos_add field_simps)
  have u: "0 \<le> ?u" and v: "0 \<le> ?v" and uv: "?u + ?v = 1"
    using assms by (simp_all add: field_simps)
  have "?u * ?p + ?v * ?q \<le> 1"
    by (rule convex_bound_le) (use u v uv in \<open>simp_all\<close>)
  then show "sin a * sin b + cos a * cos b * k \<le> 1" by (simp only: eq)
  have "?u * (- ?p) + ?v * (- ?q) \<le> 1"
    by (rule convex_bound_le) (use u v uv in \<open>simp_all\<close>)
  moreover have "?u * (- ?p) + ?v * (- ?q) = - (?u * ?p + ?v * ?q)"
    by (simp only: mult_minus_right minus_add_distrib)
  ultimately have "- (?u * ?p + ?v * ?q) \<le> 1" by (simp only:)
  then have "- 1 \<le> ?u * ?p + ?v * ?q" by linarith
  then show "- 1 \<le> sin a * sin b + cos a * cos b * k" by (simp only: eq)
qed

lemma cosd_bounds: "- 1 \<le> cosd lat lon s_lat s_lon" "cosd lat lon s_lat s_lon \<le> 1"
  unfolding cosd_law_of_cosines by (rule dot_bounds; simp)+

lemma cosd_angle: "cosd lat lon s_lat s_lon = cos (great_circle_angle lat lon s_lat s_lon)"
proof -
  have "cos (arccos (cosd lat lon s_lat s_lon)) = cosd lat lon s_lat s_lon"
    by (rule cos_arccos) (rule cosd_bounds)+
  then show ?thesis
    by (simp add: great_circle_angle_def cosd_law_of_cosines)
qed

lemma angle_range:
  "0 \<le> great_circle_angle lat lon s_lat s_lon" "great_circle_angle lat lon s_lat s_lon \<le> pi"
  using cosd_bounds[of lat lon s_lat s_lon]
  by (simp_all add: great_circle_angle_def cosd_law_of_cosines arccos_lbound arccos_ubound)

lemma within_arc_iff:
  assumes "0 < arc" "arc \<le> pi"
  shows "cosd lat lon s_lat s_lon > cos arc \<longleftrightarrow> great_circle_angle lat lon s_lat s_lon < arc"
  unfolding cosd_angle
  using assms angle_range[of lat lon s_lat s_lon]
  by (simp add: cos_mono_less_eq)

lemma incircle_fst:
  "map fst (incircle rs arc lat lon) =
     filter (\<lambda>r. cosd lat lon (st_lat r) (st_lon r) > cos arc) rs"
  by (induction rs) (simp_all add: Let_def)

lemma incircle_weights:
  "(r, w) \<in> set (incircle rs arc lat lon) \<Longrightarrow>
     w = weight_of arc (cosd lat lon (st_lat r) (st_lon r))"
  by (induction rs) (auto simp: Let_def split: if_splits)

lemma incircle_arc_nonzero:
  "(r, w) \<in> set (incircle rs arc lat lon) \<Longrightarrow> arc \<noteq> 0"
proof (induction rs)
  case Nil then show ?case by simp
next
  case (Cons a rs)
  then show ?case
    using cosd_bounds(2)[of lat lon "st_lat a" "st_lon a"]
    by (auto simp: Let_def split: if_splits)
qed

lemma incircle_weight_checked:
  assumes "(r, w) \<in> set (incircle rs arc lat lon)"
  shows "weight_checked arc (cosd lat lon (st_lat r) (st_lon r)) = Inr w"
proof -
  have "arc \<noteq> 0" using assms by (rule incircle_arc_nonzero)
  moreover have "w = weight_of arc (cosd lat lon (st_lat r) (st_lon r))"
    using assms by (rule incircle_weights)
  moreover have "cosd lat lon (st_lat r) (st_lon r) \<le> 1" by (rule cosd_bounds)
  ultimately show ?thesis by (simp add: weight_checked_def)
qed

lemma weight_checked_above_one: "1 < c \<Longrightarrow> weight_checked arc c = Inl ValueError"
  by (simp add: weight_checked_def)

lemma weight_below_one: "0 < arc \<Longrightarrow> c < 1 \<Longrightarrow> weight_of arc c < 1"
  by (simp add: weight_of_def Let_def)






lemma incircle_example:
  "incircle [station_north, station_centre, station_far] 2 0 0 =
     [(station_north, 1 / 2), (station_centre, 1)]"
proof -
  have c: "cos (pi / 3) * 2 = 1"
    by (simp only: cos_60)
  have "cosd 0 0 60 0 = 1 / 2" "cosd 0 0 0 0 = 1" "cosd 0 0 0 180 = - 1"
    by (simp_all add: cosd_def c)
  moreover have "cos 2 < (1 / 2 :: real)" "cos 2 < (1 :: real)" "\<not> (cos 2 < (- 1 :: real))"
    using cos_two_less_zero cos_ge_minus_one[of "2::real"] by linarith+
  ultimately show ?thesis
    by (simp add: station_north_def station_centre_def station_far_def weight_of_def)
qed




text \<open>
  C8 (for every positive arc, incircle yields exactly the records whose
  great-circle angular distance to the target is below arc, in input order). The
  docstring says the same: a record is returned if its great circle arc to the
  point of interest is less than arc radians. The code does not compare the
  angle with arc but the cosine of the angle with \<open>cos arc\<close>. For arc = 2 pi the
  cosine of arc is 1, no record can pass, and a station on the target itself, at
  distance 0, is not yielded. The last part is a second failure at the usual arc
  of 1200 km over a radius of 6371 km: for the target at latitude -76, longitude
  -175 and a station on it, double precision computes the cosine 1 + 2^-52, the
  station passes the test, and the square root of 2 (1 - cosine) raises
  ValueError, so the station is not yielded either.
\<close>

theorem incircle_misses_station_on_target:
  "great_circle_angle 0 0 (st_lat station_centre) (st_lon station_centre) = 0 \<and>
   (0::real) < 2 * pi \<and>
   incircle [station_centre] (2 * pi) 0 0 = [] \<and>
   weight_checked (1200 / 6371) (1 + 1 / 2 ^ 52) = Inl ValueError"
  by (simp add: station_centre_def cosd_def great_circle_angle_def weight_checked_def)

text \<open>
  In exact arithmetic the comparison of cosines agrees with the docstring for an
  arc of at most pi: the records yielded are exactly those at a distance below
  arc, in the order of the input; and for any positive arc every record yielded
  is at a distance below arc.
\<close>

lemma incircle_exact_within_arc:
  assumes "0 < arc"
  shows "(\<forall>r\<in>set (map fst (incircle rs arc lat lon)).
            great_circle_angle lat lon (st_lat r) (st_lon r) < arc) \<and>
         (arc \<le> pi \<longrightarrow>
            map fst (incircle rs arc lat lon) =
              filter (\<lambda>r. great_circle_angle lat lon (st_lat r) (st_lon r) < arc) rs)"
proof (intro conjI impI ballI)
  assume le: "arc \<le> pi"
  show "map fst (incircle rs arc lat lon) =
          filter (\<lambda>r. great_circle_angle lat lon (st_lat r) (st_lon r) < arc) rs"
    by (simp add: incircle_fst within_arc_iff[OF assms le])
next
  fix r
  assume "r \<in> set (map fst (incircle rs arc lat lon))"
  then have c: "cosd lat lon (st_lat r) (st_lon r) > cos arc"
    by (simp add: incircle_fst)
  show "great_circle_angle lat lon (st_lat r) (st_lon r) < arc"
  proof (cases "arc \<le> pi")
    case True
    with c show ?thesis by (simp add: within_arc_iff[OF assms True])
  next
    case False
    with angle_range(2)[of lat lon "st_lat r" "st_lon r"] show ?thesis by simp
  qed
qed

section \<open>Properties of iter_subbox_grid\<close>

lemma iter_subbox_grid_map:
  "iter_subbox_grid e g rs mm fy radius =
     map (grid_cell e g (sorted_py_reverse st_good_count rs) mm fy radius (radius / earth_radius g))
       (all_subboxes g)"
proof -
  have "concat (map (\<lambda>(region_box, subboxes). map f subboxes) xs) =
        map f (concat (map (\<lambda>(region_box, subboxes). subboxes) xs))" for f :: "box \<Rightarrow> gridcell" and xs :: "(box \<times> box list) list"
    by (induction xs) auto
  then show ?thesis
    by (simp add: iter_subbox_grid_def all_subboxes_def Let_def)
qed

lemma grid_cell_contributors:
  "grid_cell e g (sorted_py_reverse st_good_count rs) mm fy radius (radius / earth_radius g) sb =
     (case contributors_of g rs radius sb of
        [] \<Rightarrow> \<lparr> cell_series = py_repeat MISSING mm, cell_n = None, cell_box = sb,
                   cell_stations = 0, cell_station_months = 0, cell_d = MISSING \<rparr>
      | (record, wt) # rest \<Rightarrow>
             (case seed mm record wt of
                (subbox_series, weight) \<Rightarrow>
                  (case add_stations e mm
                          (subbox_series, weight, st_good_count record, 1, wt) rest of
                     (subbox_series, weight, total_good_months, total_stations, max_weight) \<Rightarrow>
                       \<lparr> cell_series =
                           anomalize e subbox_series (gridding_reference_period e) fy,
                         cell_n = Some mm, cell_box = sb,
                         cell_stations = total_stations,
                         cell_station_months = total_good_months,
                         cell_d = radius * (1 - max_weight) \<rparr>)))"
  by (simp add: grid_cell_def contributors_of_def Let_def)

text \<open>
  C9 (a cell without contributing stations is yielded as an all-missing series of
  max_months months with 0 stations, 0 station months and the missing marker as
  quality score, and no error). The k-th cell that the generator yields belongs
  to the k-th subbox; the model of the generator has no error result at all.
\<close>

theorem empty_cell:
  assumes "k < length (all_subboxes g)"
    and "contributors_of g rs radius (all_subboxes g ! k) = []"
  shows "iter_subbox_grid e g rs mm fy radius ! k =
           \<lparr> cell_series = replicate (nat mm) MISSING, cell_n = None,
             cell_box = all_subboxes g ! k,
             cell_stations = 0, cell_station_months = 0, cell_d = MISSING \<rparr>"
  using assms by (simp add: iter_subbox_grid_map grid_cell_contributors py_repeat_def)

lemma Max_max_Cons:
  fixes a b :: real
  shows "Max (set (max a b # xs)) = Max (set (a # b # xs))"
proof (cases xs)
  case Nil
  then show ?thesis by simp
next
  case (Cons x xs')
  then have ne: "set xs \<noteq> {}" by simp
  show ?thesis
    using ne by (simp add: Max_insert max.assoc)
qed

lemma add_stations_max_weight:
  "add_stations e mm (s, w, tg, ts, mw) rest = (s', w', tg', ts', mw') \<Longrightarrow>
     mw' = Max (set (mw # merged_weights (merge_trace e mm (s, w) rest)))"
proof (induction rest arbitrary: s w tg ts mw)
  case Nil
  then show ?case by (simp add: merged_weights_def)
next
  case (Cons c rest)
  obtain r wt where c: "c = (r, wt)" by (cases c)
  let ?new = "py_slice_assign (py_repeat MISSING mm) (rel_first_month r - 1) (rel_last_month r) (st_series r)"
  obtain s1 w1 months where cmb: "combine e s w ?new (Scalar wt) (gridding_min_overlap e) = (s1, w1, months)"
    by (cases "combine e s w ?new (Scalar wt) (gridding_min_overlap e)")
  show ?case
  proof (cases "sum_list months = 0")
    case True
    with Cons.prems c cmb have "add_stations e mm (s1, w1, tg + sum_list months, ts, mw) rest = (s', w', tg', ts', mw')"
      by (simp add: Let_def)
    from Cons.IH[OF this] show ?thesis
      using True c cmb by (simp add: merged_weights_def)
  next
    case False
    with Cons.prems c cmb have "add_stations e mm (s1, w1, tg + sum_list months, ts + 1, max mw wt) rest = (s', w', tg', ts', mw')"
      by (simp add: Let_def)
    from Cons.IH[OF this] have "mw' = Max (set (max mw wt # merged_weights (merge_trace e mm (s1, w1) rest)))" .
    also have "\<dots> = Max (set (mw # wt # merged_weights (merge_trace e mm (s1, w1) rest)))"
      by (rule Max_max_Cons)
    finally show ?thesis
      using False c cmb by (simp add: merged_weights_def)
  qed
qed

lemma contributors_example:
  "contributors_of example_geometry [station_north, station_centre, station_far] 12742
     (- 1, 1, - 1, 1) = [(station_north, 1 / 2), (station_centre, 1)]"
proof -
  have "sorted_py_reverse st_good_count [station_north, station_centre, station_far] =
          [station_north, station_centre, station_far]"
    by (simp add: sorted_py_reverse_def station_north_def station_centre_def station_far_def)
  moreover have "pole_snap (centre example_geometry (- 1, 1, - 1, 1)) = (0, 0)"
    by (simp add: pole_snap_def py_round_def example_geometry_def)
  ultimately show ?thesis
    by (simp add: contributors_of_def example_geometry_def incircle_example Let_def
        del: incircle.simps)
qed

lemma contributors_example_far:
  "contributors_of example_geometry [station_far] 12742 (- 1, 1, - 1, 1) = []"
proof -
  have "pole_snap (centre example_geometry (- 1, 1, - 1, 1)) = (0, 0)"
    by (simp add: pole_snap_def py_round_def example_geometry_def)
  moreover have "cosd 0 0 0 180 = - 1"
    by (simp add: cosd_def)
  moreover have "\<not> (cos 2 < (- 1 :: real))"
    using cos_ge_minus_one[of "2::real"] by linarith
  ultimately show ?thesis
    by (simp add: contributors_of_def example_geometry_def sorted_py_reverse_def
        station_far_def)
qed

lemma all_subboxes_example: "all_subboxes example_geometry = [(- 1, 1, - 1, 1)]"
  by (simp add: all_subboxes_def example_geometry_def)

theorem empty_cell_witness:
  "0 < length (all_subboxes example_geometry) \<and>
   contributors_of example_geometry [station_far] 12742 (all_subboxes example_geometry ! 0) = [] \<and>
   iter_subbox_grid example_env example_geometry [station_far] 24 1880 12742 ! 0 =
     \<lparr> cell_series = replicate 24 MISSING, cell_n = None, cell_box = (- 1, 1, - 1, 1),
       cell_stations = 0, cell_station_months = 0, cell_d = MISSING \<rparr>"
  using empty_cell [of 0 example_geometry "[station_far]" 12742 example_env 24 1880]
  by (simp add: all_subboxes_example contributors_example_far)

text \<open>
  C3 (the quality score of a cell with contributors is radius (1 - max_weight),
  the maximum taken over all contributors that incircle returned, also those
  whose merge added no month). A contributor whose merge added no month leaves
  the loop body at \<^verbatim>\<open>continue\<close> before \<^verbatim>\<open>max_weight\<close> is updated. Here the
  station on the centre of the cell (weight 1) comes second and overlaps the
  first station (weight 1/2) in one month only, below the minimum overlap, so
  nothing of it is merged: the score is 12742 (1 - 1/2) = 6371, not
  12742 (1 - 1) = 0.
\<close>

theorem quality_score_counterexample:
  "contributors_of example_geometry [station_north, station_centre, station_far] 12742
     (all_subboxes example_geometry ! 0) = [(station_north, 1 / 2), (station_centre, 1)] \<and>
   cell_d (iter_subbox_grid example_env example_geometry
             [station_north, station_centre, station_far] 1 1880 12742 ! 0) = 6371 \<and>
   12742 * (1 - Max (set (map snd
      (contributors_of example_geometry [station_north, station_centre, station_far] 12742
         (all_subboxes example_geometry ! 0))))) = 0"
proof -
  have sd: "seed 1 station_north (1 / 2) = ([5], [1 / 2])"
    by (simp add: seed_def py_repeat_def py_slice_assign_def py_slice_bound_def
        station_north_def valid_def MISSING_def)
  have new: "py_slice_assign (py_repeat MISSING 1) (rel_first_month station_centre - 1)
               (rel_last_month station_centre) (st_series station_centre) = [7]"
    by (simp add: py_repeat_def py_slice_assign_def py_slice_bound_def station_centre_def)
  have cmb: "combine example_env [5] [1 / 2] [7] (Scalar 1) (gridding_min_overlap example_env) =
               ([5], [1 / 2], replicate 12 0)"
    by (simp add: example_env_def combine_spec_def valid_def MISSING_def)
  have "add_stations example_env 1 ([5], [1 / 2], st_good_count station_north, 1, 1 / 2)
          [(station_centre, 1)] = ([5], [1 / 2], st_good_count station_north, 1, 1 / 2)"
    by (simp add: new cmb Let_def sum_list_replicate)
  then show ?thesis
    by (simp add: iter_subbox_grid_map grid_cell_contributors all_subboxes_example
        contributors_example sd)
qed

text \<open>
  C3 as amended: for a cell with contributors, the quality score is
  radius (1 - max_weight), where max_weight is the maximum of the weight of the
  first contributor and the weights of the later contributors whose merge added
  at least one month.
\<close>

theorem quality_score:
  assumes "k < length (all_subboxes g)"
    and "contributors_of g rs radius (all_subboxes g ! k) = (r0, w0) # rest"
  shows "cell_d (iter_subbox_grid e g rs mm fy radius ! k) =
           radius * (1 - Max (set (w0 # merged_weights (merge_trace e mm (seed mm r0 w0) rest))))"
proof -
  obtain s w where sd: "seed mm r0 w0 = (s, w)" by (cases "seed mm r0 w0")
  obtain s' w' tg' ts' mw' where as: "add_stations e mm (s, w, st_good_count r0, 1, w0) rest = (s', w', tg', ts', mw')"
    by (cases "add_stations e mm (s, w, st_good_count r0, 1, w0) rest") auto
  from add_stations_max_weight[OF as]
  show ?thesis using assms sd as
    by (simp add: iter_subbox_grid_map grid_cell_contributors)
qed

theorem quality_score_witness:
  "0 < length (all_subboxes example_geometry) \<and>
   contributors_of example_geometry [station_north, station_centre, station_far] 12742
     (all_subboxes example_geometry ! 0) = (station_north, 1 / 2) # [(station_centre, 1)] \<and>
   cell_d (iter_subbox_grid example_env example_geometry
             [station_north, station_centre, station_far] 1 1880 12742 ! 0) =
     12742 * (1 - Max (set (1 / 2 # merged_weights
         (merge_trace example_env 1 (seed 1 station_north (1 / 2)) [(station_centre, 1)]))))"
  using quality_score [of 0 example_geometry "[station_north, station_centre, station_far]"
      12742 station_north "1 / 2" "[(station_centre, 1)]" example_env 1 1880]
  by (simp add: all_subboxes_example contributors_example)

section \<open>Properties of subbox_to_box\<close>

lemma whichbox_in_set: "whichbox g bs c = Some b \<Longrightarrow> b \<in> set bs"
  by (induction bs) (auto split: prod.splits if_splits)

lemma partition_cells_ok:
  assumes "set boxes \<subseteq> dom d"
    and "\<forall>c\<in>set cells. whichbox g boxes (sb_box c) \<noteq> None"
  shows "partition_cells g boxes d cells =
           Inr (\<lambda>b. map_option
                  (\<lambda>l. l @ filter (\<lambda>c. whichbox g boxes (sb_box c) = Some b) cells) (d b))"
  using assms
proof (induction cells arbitrary: d)
  case Nil
  have "(\<lambda>b. map_option (\<lambda>l. l) (d b)) = d"
    by (simp add: option.map_ident)
  then show ?case by simp
next
  case (Cons c cells)
  from Cons.prems(2) obtain b where b: "whichbox g boxes (sb_box c) = Some b" by auto
  then have "b \<in> set boxes" by (rule whichbox_in_set)
  with Cons.prems(1) obtain l where l: "d b = Some l" by auto
  have dom: "set boxes \<subseteq> dom (d(b \<mapsto> l @ [c]))"
    using Cons.prems(1) by auto
  have rest: "\<forall>c\<in>set cells. whichbox g boxes (sb_box c) \<noteq> None"
    using Cons.prems(2) by simp
  have step: "partition_cells g boxes d (c # cells) =
                partition_cells g boxes (d(b \<mapsto> l @ [c])) cells"
    using b l by simp
  have "(\<lambda>b'. map_option
                (\<lambda>l. l @ filter (\<lambda>c. whichbox g boxes (sb_box c) = Some b') cells)
                ((d(b \<mapsto> l @ [c])) b')) =
        (\<lambda>b'. map_option
                (\<lambda>l. l @ filter (\<lambda>c. whichbox g boxes (sb_box c) = Some b') (c # cells))
                (d b'))"
    using b l by (intro ext) auto
  then show ?case
    using Cons.IH[OF dom rest] by (simp only: step)
qed

lemma partition_cells_KeyError:
  assumes "set boxes \<subseteq> dom d"
    and "\<exists>c\<in>set cells. whichbox g boxes (sb_box c) = None"
  shows "partition_cells g boxes d cells = Inl KeyError"
  using assms
proof (induction cells arbitrary: d)
  case Nil
  then show ?case by simp
next
  case (Cons c cells)
  show ?case
  proof (cases "whichbox g boxes (sb_box c)")
    case None
    then show ?thesis by simp
  next
    case (Some b)
    then have "b \<in> set boxes" by (rule whichbox_in_set)
    with Cons.prems(1) obtain l where l: "d b = Some l" by auto
    have dom: "set boxes \<subseteq> dom (d(b \<mapsto> l @ [c]))"
      using Cons.prems(1) by auto
    have "\<exists>c\<in>set cells. whichbox g boxes (sb_box c) = None"
      using Cons.prems(2) Some by auto
    from Cons.IH[OF dom this]
    have "partition_cells g boxes (d(b \<mapsto> l @ [c])) cells = Inl KeyError" .
    moreover have "partition_cells g boxes d (c # cells) =
                partition_cells g boxes (d(b \<mapsto> l @ [c])) cells"
      using Some l by simp
    ultimately show ?thesis by (simp only:)
  qed
qed

lemma empty_dict:
  "map_of (map (\<lambda>b. (b, [])) boxes) b = (if b \<in> set boxes then Some [] else None)"
  by (induction boxes) auto

lemma sorted_py_reverse_Nil: "sorted_py_reverse f xs = [] \<longleftrightarrow> xs = []"
  by (simp add: sorted_py_reverse_def sort_key_Nil_iff)

lemma box_loop_IndexError:
  assumes "\<forall>b\<in>set pre. \<exists>l. d b = Some l \<and> l \<noteq> []"
    and "d b0 = Some []"
  shows "\<exists>ys. box_loop e m d (pre @ b0 # post) = (ys, Raised IndexError) \<and>
              length ys = length pre"
  using assms(1)
proof (induction pre)
  case Nil
  then show ?case using assms(2) by (simp add: sorted_py_reverse_def)
next
  case (Cons b pre)
  then obtain l where l: "d b = Some l" "l \<noteq> []" by auto
  then obtain best rest where s: "sorted_py_reverse sb_good_count l = best # rest"
    using sorted_py_reverse_Nil[of sb_good_count l] by (cases "sorted_py_reverse sb_good_count l") auto
  from Cons obtain ys where ys: "box_loop e m d (pre @ b0 # post) = (ys, Raised IndexError)"
    "length ys = length pre" by auto
  show ?case
    using l s ys by (simp add: Let_def split: prod.splits)
qed

text \<open>
  C10 (subbox_to_box needs a cell in every box and a box for every cell). When
  every cell is in some box and box number i is the first without a cell, the
  generator yields the i boxes before it and then raises IndexError at
  \<^verbatim>\<open>contributors[0]\<close>; it yields no empty box. When some cell is in no box,
  \<^verbatim>\<open>whichbox\<close> returns None for it and the generator raises KeyError before
  it yields anything; the cell is not dropped.
\<close>

theorem subbox_to_box_needs_every_box:
  "(i < length (grid g) \<and>
    (\<forall>c\<in>set cells. whichbox g (grid g) (sb_box c) \<noteq> None) \<and>
    cells_in g cells (grid g ! i) = [] \<and>
    (\<forall>j<i. cells_in g cells (grid g ! j) \<noteq> []) \<longrightarrow>
      (\<exists>ys. subbox_to_box e g m cells = (ys, Raised IndexError) \<and> length ys = i)) \<and>
   ((\<exists>c\<in>set cells. whichbox g (grid g) (sb_box c) = None) \<longrightarrow>
      subbox_to_box e g m cells = ([], Raised KeyError))"
proof (intro conjI impI)
  let ?init = "map_of (map (\<lambda>b. (b, [])) (grid g))"
  have dom0: "set (grid g) \<subseteq> dom ?init"
    by (auto simp: empty_dict)
  {
    assume "\<exists>c\<in>set cells. whichbox g (grid g) (sb_box c) = None"
    from partition_cells_KeyError[OF dom0 this]
    show "subbox_to_box e g m cells = ([], Raised KeyError)"
      by (simp add: subbox_to_box_def Let_def)
  }
  {
    assume a: "i < length (grid g) \<and>
      (\<forall>c\<in>set cells. whichbox g (grid g) (sb_box c) \<noteq> None) \<and>
      cells_in g cells (grid g ! i) = [] \<and>
      (\<forall>j<i. cells_in g cells (grid g ! j) \<noteq> [])"
    let ?d = "\<lambda>b. map_option (\<lambda>l. l @ cells_in g cells b) (?init b)"
    from a have nn: "\<forall>c\<in>set cells. whichbox g (grid g) (sb_box c) \<noteq> None"
      by blast
    have "partition_cells g (grid g) ?init cells = Inr ?d"
      unfolding cells_in_def by (rule partition_cells_ok[OF dom0 nn])
    then have run: "subbox_to_box e g m cells = box_loop e m ?d (grid g)"
      by (simp add: subbox_to_box_def Let_def)
    have split: "grid g = take i (grid g) @ (grid g ! i) # drop (Suc i) (grid g)"
      using a by (simp add: id_take_nth_drop)
    have pre: "\<forall>b\<in>set (take i (grid g)). \<exists>l. ?d b = Some l \<and> l \<noteq> []"
    proof
      fix b assume "b \<in> set (take i (grid g))"
      then obtain j where j: "j < i" "j < length (grid g)" "b = grid g ! j"
        using a by (auto simp: in_set_conv_nth)
      then have "b \<in> set (grid g)" by simp
      moreover have "cells_in g cells b \<noteq> []" using a j by simp
      ultimately show "\<exists>l. ?d b = Some l \<and> l \<noteq> []"
        by (simp add: empty_dict)
    qed
    have b0: "?d (grid g ! i) = Some []"
      using a by (simp add: empty_dict)
    from box_loop_IndexError[OF pre b0, of e m "drop (Suc i) (grid g)"]
    obtain ys where "box_loop e m ?d (take i (grid g) @ (grid g ! i) # drop (Suc i) (grid g)) =
        (ys, Raised IndexError)" "length ys = length (take i (grid g))"
      by blast
    then show "\<exists>ys. subbox_to_box e g m cells = (ys, Raised IndexError) \<and> length ys = i"
      using a run split by (metis length_take min.absorb2 less_imp_le_nat)
  }
qed

theorem subbox_to_box_needs_every_box_witness:
  "whichbox example_hemispheres (grid example_hemispheres) (sb_box cell_north) =
     Some (0, 90, - 180, 180) \<and>
   cells_in example_hemispheres [cell_north] (0, 90, - 180, 180) = [cell_north] \<and>
   cells_in example_hemispheres [cell_north] (- 90, 0, - 180, 180) = [] \<and>
   snd (subbox_to_box example_env example_hemispheres example_meta [cell_north]) =
     Raised IndexError \<and>
   length (fst (subbox_to_box example_env example_hemispheres example_meta [cell_north])) = 1 \<and>
   whichbox example_hemispheres (grid example_hemispheres) (sb_box cell_dateline) = None \<and>
   subbox_to_box example_env example_hemispheres example_meta [cell_north, cell_dateline] =
     ([], Raised KeyError)"
proof -
  have n: "whichbox example_hemispheres (grid example_hemispheres) (sb_box cell_north) =
             Some (0, 90, - 180, 180)"
    by (simp add: example_hemispheres_def cell_north_def)
  have dl: "whichbox example_hemispheres (grid example_hemispheres) (sb_box cell_dateline) = None"
    by (simp add: example_hemispheres_def cell_dateline_def)
  have g: "grid example_hemispheres = [(0, 90, - 180, 180), (- 90, 0, - 180, 180)]"
    by (simp add: example_hemispheres_def)
  have c: "cells_in example_hemispheres [cell_north] (0, 90, - 180, 180) = [cell_north]"
    "cells_in example_hemispheres [cell_north] (- 90, 0, - 180, 180) = []"
    using n by (simp_all add: cells_in_def)
  have h1: "1 < length (grid example_hemispheres) \<and>
      (\<forall>c\<in>set [cell_north].
          whichbox example_hemispheres (grid example_hemispheres) (sb_box c) \<noteq> None) \<and>
      cells_in example_hemispheres [cell_north] (grid example_hemispheres ! 1) = [] \<and>
      (\<forall>j<1. cells_in example_hemispheres [cell_north] (grid example_hemispheres ! j) \<noteq> [])"
    using n c by (simp add: g)
  have h2: "\<exists>c\<in>set [cell_north, cell_dateline].
      whichbox example_hemispheres (grid example_hemispheres) (sb_box c) = None"
    using dl by simp
  from h1 subbox_to_box_needs_every_box [of 1 example_hemispheres "[cell_north]"
        example_env example_meta]
  obtain ys where "subbox_to_box example_env example_hemispheres example_meta [cell_north] =
      (ys, Raised IndexError)" "length ys = 1"
    by blast
  moreover from h2 subbox_to_box_needs_every_box [of 1 example_hemispheres
        "[cell_north, cell_dateline]" example_env example_meta]
  have "subbox_to_box example_env example_hemispheres example_meta [cell_north, cell_dateline] =
     ([], Raised KeyError)"
    by blast
  ultimately show ?thesis
    using n dl c by simp
qed

section \<open>Properties of annzon\<close>

lemma year_sum_filter:
  "year_sum (a, k) vs = (a + sum_list (filter valid vs), k + int (length (filter valid vs)))"
  by (induction vs arbitrary: a k) (simp_all add: valid_def)

lemma annual_mean_ok:
  assumes "1 \<le> min_months \<or> (\<exists>v\<in>set year. valid v)"
  shows "annual_mean min_months year = Inr (year_value min_months year)"
proof -
  have "filter valid year \<noteq> []" if "\<exists>v\<in>set year. valid v"
    using that by (simp add: filter_empty_conv)
  with assms have "1 \<le> min_months \<or> 0 < length (filter valid year)"
    by auto
  then show ?thesis
    by (auto simp: annual_mean_def year_value_def year_sum_filter Let_def)
qed

lemma annual_mean_zero_division:
  "min_months \<le> 0 \<Longrightarrow> annual_mean min_months (replicate 12 MISSING) = Inl ZeroDivisionError"
  by (simp add: annual_mean_def year_sum_filter valid_def)

lemma collect_map_Inr:
  "(\<And>x. x \<in> set xs \<Longrightarrow> f x = Inr (h x)) \<Longrightarrow> collect (map f xs) = Inr (map h xs)"
  by (induction xs) simp_all

lemma length_grouper: "length (grouper xs) = length xs div 12"
  by (simp add: grouper_def)

lemma nth_grouper: "i < length xs div 12 \<Longrightarrow> grouper xs ! i = year_of xs i"
  by (simp add: grouper_def year_of_def)

lemma annual_means_ok:
  assumes "\<And>dz. dz \<in> set data \<Longrightarrow> iyrs \<le> length dz"
    and "\<And>dz iy. dz \<in> set data \<Longrightarrow> iy < iyrs \<Longrightarrow>
           1 \<le> min_months \<or> (\<exists>v\<in>set (dz ! iy). valid v)"
  shows "annual_means min_months iyrs data =
           Inr (map (\<lambda>dz. map (\<lambda>iy. year_value min_months (dz ! iy)) [0..<iyrs]) data)"
  unfolding annual_means_def
proof (rule collect_map_Inr)
  fix dz assume dz: "dz \<in> set data"
  then have "iyrs \<le> length dz" by (rule assms(1))
  then show "collect (map (\<lambda>iy. if iy < length dz then annual_mean min_months (dz ! iy)
                            else Inl IndexError) [0..<iyrs]) =
        Inr (map (\<lambda>iy. year_value min_months (dz ! iy)) [0..<iyrs])"
    by (intro collect_map_Inr) (simp add: annual_mean_ok[OF assms(2)[OF dz]])
qed

lemma blend_four:
  "blend 0 [(va, 3), (vb, 2), (vc, 2), (vd, 3)] = blend_spec va vb vc vd"
  by (simp add: blend_spec_def algebra_simps)

lemma alternate_hemi_props:
  assumes "alternate_hemi iyrs (data, ann) = (data', ann')"
  shows "length ann' = length ann" and "length data' = length data"
    and "z \<noteq> 11 \<Longrightarrow> z \<noteq> 12 \<Longrightarrow> ann' ! z = ann ! z \<and> data' ! z = data ! z"
  using assms
  by (auto simp: alternate_hemi_def alternate_hemi_one_def Let_def)

lemma alternate_hemi_values:
  assumes "alternate_hemi iyrs (data, ann) = (data', ann')"
    and "length ann = 16" and "iy < iyrs"
  shows "ann' ! 11 ! iy = hemi_value (ann ! 3 ! iy) (ann ! 8 ! iy)"
    and "ann' ! 12 ! iy = hemi_value (ann ! 4 ! iy) (ann ! 10 ! iy)"
  using assms
  by (auto simp: alternate_hemi_def alternate_hemi_one_def Let_def)

lemma alternate_global_props:
  assumes "glb = 1 \<or> glb = 2" and "length ann = 16" and "length data = 16"
  shows "\<exists>data' ann'.
           alternate_global glb iyrs (data, ann) = Inr (data', ann') \<and>
           length ann' = 16 \<and> length data' = 16 \<and>
           (\<forall>z. z \<noteq> 15 \<longrightarrow> ann' ! z = ann ! z \<and> data' ! z = data ! z) \<and>
           (\<forall>iy<iyrs.
              ann' ! 15 ! iy =
                blend 0 (zip (map (\<lambda>z. ann ! z ! iy)
                                (if glb = 1 then [8, 9, 9, 10] else [8, 3, 4, 10])) [3, 2, 2, 3]) \<and>
              (\<forall>mo<12.
                 data' ! 15 ! iy ! mo =
                   blend 0 (zip (map (\<lambda>z. data ! z ! iy ! mo)
                                   (if glb = 1 then [8, 9, 9, 10] else [8, 3, 4, 10]))
                              [3, 2, 2, 3])))"
  using assms
  by (auto simp: alternate_global_def Let_def nth_append)

lemma data_read_props:
  assumes "annzon_input e m za"
  shows "length (data_read za) = 16"
    and "dz \<in> set (data_read za) \<Longrightarrow> nat (monm m div 12) \<le> length dz"
    and "z < 16 \<Longrightarrow> iy < nat (monm m div 12) \<Longrightarrow> data_read za ! z ! iy = year_of (fst (za ! z)) iy"
    and "dz \<in> set (data_read za) \<Longrightarrow> iy < nat (monm m div 12) \<Longrightarrow>
         1 \<le> zone_annual_min_months e \<or> (\<exists>v\<in>set (dz ! iy). valid v)"
proof -
  from assms have len: "16 \<le> length za"
    and all: "list_all (\<lambda>(tdata, twt). 12 * nat (monm m div 12) \<le> length tdata) (take 16 za)"
    by (simp_all add: annzon_input_def)
  show "length (data_read za) = 16"
    using len by (simp add: data_read_def)
  have yrs: "nat (monm m div 12) \<le> length (fst p) div 12" if "p \<in> set (take 16 za)" for p
  proof -
    from all that have "12 * nat (monm m div 12) \<le> length (fst p)"
      by (cases p) (auto simp: list_all_iff)
    then show ?thesis by simp
  qed
  show "nat (monm m div 12) \<le> length dz" if "dz \<in> set (data_read za)"
    using that yrs by (auto simp: data_read_def length_grouper)
  show "1 \<le> zone_annual_min_months e \<or> (\<exists>v\<in>set (dz ! iy). valid v)"
    if dz: "dz \<in> set (data_read za)" and iy: "iy < nat (monm m div 12)"
  proof (cases "1 \<le> zone_annual_min_months e")
    case True
    then show ?thesis by simp
  next
    case False
    with assms have months: "list_all (\<lambda>(tdata, twt).
        \<forall>iy<nat (monm m div 12). \<exists>v\<in>set (year_of tdata iy). valid v) (take 16 za)"
      by (simp add: annzon_input_def)
    from dz obtain p where p: "p \<in> set (take 16 za)" and g: "dz = grouper (fst p)"
      by (auto simp: data_read_def)
    from months p iy have "\<exists>v\<in>set (year_of (fst p) iy). valid v"
      by (cases p) (auto simp: list_all_iff)
    moreover from yrs[OF p] iy have "grouper (fst p) ! iy = year_of (fst p) iy"
      by (intro nth_grouper) simp
    ultimately show ?thesis by (simp add: g)
  qed
  show "data_read za ! z ! iy = year_of (fst (za ! z)) iy"
    if z: "z < 16" and iy: "iy < nat (monm m div 12)"
  proof -
    have "take 16 za ! z \<in> set (take 16 za)"
      using z len by (intro nth_mem) simp
    then have "za ! z \<in> set (take 16 za)" using z by simp
    from yrs[OF this] iy have "iy < length (fst (za ! z)) div 12" by simp
    then show ?thesis
      using z len by (cases "za ! z") (simp add: data_read_def nth_grouper)
  qed
qed

lemma ann_pass_props:
  assumes "annzon_input e m za"
  shows "annual_means (zone_annual_min_months e) (nat (monm m div 12)) (data_read za) =
           Inr (ann_pass e m za)"
    and "length (ann_pass e m za) = 16"
    and "z < 16 \<Longrightarrow> iy < nat (monm m div 12) \<Longrightarrow>
         ann_pass e m za ! z ! iy =
           year_value (zone_annual_min_months e) (year_of (fst (za ! z)) iy)"
proof -
  show "annual_means (zone_annual_min_months e) (nat (monm m div 12)) (data_read za) =
           Inr (ann_pass e m za)"
    unfolding ann_pass_def
  proof (rule annual_means_ok)
    show "nat (monm m div 12) \<le> length dz" if "dz \<in> set (data_read za)" for dz
      using that by (rule data_read_props(2)[OF assms])
    show "1 \<le> zone_annual_min_months e \<or> (\<exists>v\<in>set (dz ! iy). valid v)"
      if "dz \<in> set (data_read za)" "iy < nat (monm m div 12)" for dz iy
      using that by (rule data_read_props(4)[OF assms])
  qed
  show "length (ann_pass e m za) = 16"
    by (simp add: ann_pass_def data_read_props(1)[OF assms])
  show "ann_pass e m za ! z ! iy =
           year_value (zone_annual_min_months e) (year_of (fst (za ! z)) iy)"
    if "z < 16" "iy < nat (monm m div 12)"
    using that data_read_props(1,3)[OF assms]
    by (simp add: ann_pass_def)
qed

lemma annzon_unfold:
  assumes "annzon_input e m za"
  shows "annzon e m za alt =
     (case alternate_global (alt_global (default_alternate alt)) (nat (monm m div 12))
             (data_read za, ann_pass e m za) of
        Inl err \<Rightarrow> Inl err
      | Inr da \<Rightarrow>
          (case (if alt_hemi (default_alternate alt)
                 then alternate_hemi (nat (monm m div 12)) da else da) of
             (data, ann) \<Rightarrow>
               Inr (m, data, map (\<lambda>(tdata, twt). grouper twt) (take 16 za), ann,
                    zone_annual_min_months e)))"
proof -
  from assms have "\<not> length za < 16" by (simp add: annzon_input_def)
  then show ?thesis
    using ann_pass_props(1)[OF assms]
    by (simp add: annzon_def Let_def data_read_def)
qed

lemma annzon_result:
  assumes inp: "annzon_input e m za"
    and glb: "alt_global (default_alternate alt) \<in> {0, 1, 2}"
  shows "\<exists>data wt ann.
           annzon e m za alt = Inr (m, data, wt, ann, zone_annual_min_months e) \<and>
           (\<forall>z. z < 16 \<and> \<not> replaced (default_alternate alt) z \<longrightarrow>
                ann ! z = ann_pass e m za ! z \<and> data ! z = data_read za ! z) \<and>
           (alt_global (default_alternate alt) \<noteq> 0 \<longrightarrow>
              (\<forall>iy<nat (monm m div 12).
                 ann ! 15 ! iy =
                   blend 0 (zip (map (\<lambda>z. ann_pass e m za ! z ! iy)
                                   (if alt_global (default_alternate alt) = 1
                                    then [8, 9, 9, 10] else [8, 3, 4, 10])) [3, 2, 2, 3]) \<and>
                 (\<forall>mo<12.
                    data ! 15 ! iy ! mo =
                      blend 0 (zip (map (\<lambda>z. data_read za ! z ! iy ! mo)
                                      (if alt_global (default_alternate alt) = 1
                                       then [8, 9, 9, 10] else [8, 3, 4, 10]))
                                 [3, 2, 2, 3])))) \<and>
           (alt_hemi (default_alternate alt) \<longrightarrow>
              (\<forall>iy<nat (monm m div 12).
                 ann ! 11 ! iy =
                   hemi_value (ann_pass e m za ! 3 ! iy) (ann_pass e m za ! 8 ! iy) \<and>
                 ann ! 12 ! iy =
                   hemi_value (ann_pass e m za ! 4 ! iy) (ann_pass e m za ! 10 ! iy)))"
proof -
  let ?a = "default_alternate alt"
  let ?iyrs = "nat (monm m div 12)"
  let ?zone = "if alt_global ?a = 1 then [8, 9, 9, 10] else [8, 3, 4, 10::nat]"
  have l0: "length (ann_pass e m za) = 16" "length (data_read za) = 16"
    using ann_pass_props(2)[OF inp] data_read_props(1)[OF inp] by simp_all
  \<comment> \<open>after the alternate global mean\<close>
  have "\<exists>data1 ann1.
          alternate_global (alt_global ?a) ?iyrs (data_read za, ann_pass e m za) = Inr (data1, ann1) \<and>
          length ann1 = 16 \<and> length data1 = 16 \<and>
          (\<forall>z. z \<noteq> 15 \<or> alt_global ?a = 0 \<longrightarrow>
             ann1 ! z = ann_pass e m za ! z \<and> data1 ! z = data_read za ! z) \<and>
          (alt_global ?a \<noteq> 0 \<longrightarrow>
            (\<forall>iy<?iyrs.
              ann1 ! 15 ! iy = blend 0 (zip (map (\<lambda>z. ann_pass e m za ! z ! iy) ?zone) [3, 2, 2, 3]) \<and>
              (\<forall>mo<12. data1 ! 15 ! iy ! mo =
                 blend 0 (zip (map (\<lambda>z. data_read za ! z ! iy ! mo) ?zone) [3, 2, 2, 3]))))"
  proof (cases "alt_global ?a = 0")
    case True
    then show ?thesis using l0 by (simp add: alternate_global_def)
  next
    case False
    with glb have g12: "alt_global ?a = 1 \<or> alt_global ?a = 2" by auto
    from alternate_global_props[OF g12 l0, of ?iyrs] obtain data' ann' where
      p: "alternate_global (alt_global ?a) ?iyrs (data_read za, ann_pass e m za) = Inr (data', ann')"
        "length ann' = 16" "length data' = 16"
        "\<forall>z. z \<noteq> 15 \<longrightarrow> ann' ! z = ann_pass e m za ! z \<and> data' ! z = data_read za ! z"
        "\<forall>iy<?iyrs.
              ann' ! 15 ! iy = blend 0 (zip (map (\<lambda>z. ann_pass e m za ! z ! iy) ?zone) [3, 2, 2, 3]) \<and>
              (\<forall>mo<12. data' ! 15 ! iy ! mo =
                 blend 0 (zip (map (\<lambda>z. data_read za ! z ! iy ! mo) ?zone) [3, 2, 2, 3]))"
      by blast
    show ?thesis
    proof (intro exI conjI)
      show "alternate_global (alt_global ?a) ?iyrs (data_read za, ann_pass e m za) = Inr (data', ann')"
        by (rule p(1))
      show "length ann' = 16" "length data' = 16" by (rule p)+
      show "\<forall>z. z \<noteq> 15 \<or> alt_global ?a = 0 \<longrightarrow>
             ann' ! z = ann_pass e m za ! z \<and> data' ! z = data_read za ! z"
        using p(4) False by simp
      show "alt_global ?a \<noteq> 0 \<longrightarrow>
            (\<forall>iy<?iyrs.
              ann' ! 15 ! iy = blend 0 (zip (map (\<lambda>z. ann_pass e m za ! z ! iy) ?zone) [3, 2, 2, 3]) \<and>
              (\<forall>mo<12. data' ! 15 ! iy ! mo =
                 blend 0 (zip (map (\<lambda>z. data_read za ! z ! iy ! mo) ?zone) [3, 2, 2, 3])))"
        using p(5) by (rule impI)
    qed
  qed
  then obtain data1 ann1 where
    ag: "alternate_global (alt_global ?a) ?iyrs (data_read za, ann_pass e m za) = Inr (data1, ann1)"
    and l1: "length ann1 = 16" "length data1 = 16"
    and same1': "\<forall>z. z \<noteq> 15 \<or> alt_global ?a = 0 \<longrightarrow>
                 ann1 ! z = ann_pass e m za ! z \<and> data1 ! z = data_read za ! z"
    and last1': "alt_global ?a \<noteq> 0 \<longrightarrow>
            (\<forall>iy<?iyrs.
              ann1 ! 15 ! iy = blend 0 (zip (map (\<lambda>z. ann_pass e m za ! z ! iy) ?zone) [3, 2, 2, 3]) \<and>
              (\<forall>mo<12. data1 ! 15 ! iy ! mo =
                 blend 0 (zip (map (\<lambda>z. data_read za ! z ! iy ! mo) ?zone) [3, 2, 2, 3])))"
    by (elim exE conjE) (rule that; assumption)
  have same1: "ann1 ! z = ann_pass e m za ! z \<and> data1 ! z = data_read za ! z"
    if "z \<noteq> 15 \<or> alt_global ?a = 0" for z
    using spec[OF same1', of z] that by (rule mp)
  have last1: "\<forall>iy<?iyrs.
              ann1 ! 15 ! iy = blend 0 (zip (map (\<lambda>z. ann_pass e m za ! z ! iy) ?zone) [3, 2, 2, 3]) \<and>
              (\<forall>mo<12. data1 ! 15 ! iy ! mo =
                 blend 0 (zip (map (\<lambda>z. data_read za ! z ! iy ! mo) ?zone) [3, 2, 2, 3]))"
    if "alt_global ?a \<noteq> 0"
    using last1' that by (rule mp)
  \<comment> \<open>after the alternate hemispheric means\<close>
  obtain data2 ann2 where
    h: "(if alt_hemi ?a then alternate_hemi ?iyrs (data1, ann1) else (data1, ann1)) = (data2, ann2)"
    by (cases "if alt_hemi ?a then alternate_hemi ?iyrs (data1, ann1) else (data1, ann1)")
  have same2: "ann2 ! z = ann1 ! z \<and> data2 ! z = data1 ! z"
    if "\<not> (alt_hemi ?a \<and> (z = 11 \<or> z = 12))" for z
  proof (cases "alt_hemi ?a")
    case True
    with h have "alternate_hemi ?iyrs (data1, ann1) = (data2, ann2)" by simp
    from alternate_hemi_props(3)[OF this, of z] that True show ?thesis by blast
  next
    case False
    with h show ?thesis by simp
  qed
  have run: "annzon e m za alt =
      Inr (m, data2, map (\<lambda>(tdata, twt). grouper twt) (take 16 za), ann2,
           zone_annual_min_months e)"
    by (simp add: annzon_unfold[OF inp] ag h)
  have keep: "ann2 ! z = ann_pass e m za ! z \<and> data2 ! z = data_read za ! z"
    if "z < 16 \<and> \<not> replaced ?a z" for z
  proof -
    from that have "\<not> (alt_hemi ?a \<and> (z = 11 \<or> z = 12))" and "z \<noteq> 15 \<or> alt_global ?a = 0"
      by (auto simp: replaced_def)
    then show ?thesis using same1[of z] same2[of z] by simp
  qed
  have last2: "ann2 ! 15 = ann1 ! 15 \<and> data2 ! 15 = data1 ! 15"
    using same2[of 15] by simp
  have hemi2: "ann2 ! 11 ! iy = hemi_value (ann_pass e m za ! 3 ! iy) (ann_pass e m za ! 8 ! iy) \<and>
               ann2 ! 12 ! iy = hemi_value (ann_pass e m za ! 4 ! iy) (ann_pass e m za ! 10 ! iy)"
    if hm: "alt_hemi ?a" and iy: "iy < ?iyrs" for iy
  proof -
    from h hm have "alternate_hemi ?iyrs (data1, ann1) = (data2, ann2)" by simp
    from alternate_hemi_values[OF this l1(1) iy]
    show ?thesis
      using same1[of 3] same1[of 8] same1[of 4] same1[of 10] by simp
  qed
  show ?thesis
  proof (intro exI conjI)
    show "annzon e m za alt =
      Inr (m, data2, map (\<lambda>(tdata, twt). grouper twt) (take 16 za), ann2,
           zone_annual_min_months e)"
      by (rule run)
    show "\<forall>z. z < 16 \<and> \<not> replaced ?a z \<longrightarrow>
                ann2 ! z = ann_pass e m za ! z \<and> data2 ! z = data_read za ! z"
      using keep by blast
    show "alt_global ?a \<noteq> 0 \<longrightarrow>
              (\<forall>iy<?iyrs.
                 ann2 ! 15 ! iy =
                   blend 0 (zip (map (\<lambda>z. ann_pass e m za ! z ! iy) ?zone) [3, 2, 2, 3]) \<and>
                 (\<forall>mo<12.
                    data2 ! 15 ! iy ! mo =
                      blend 0 (zip (map (\<lambda>z. data_read za ! z ! iy ! mo) ?zone)
                                 [3, 2, 2, 3])))"
    proof
      assume "alt_global ?a \<noteq> 0"
      from last1[OF this] show "\<forall>iy<?iyrs.
                 ann2 ! 15 ! iy =
                   blend 0 (zip (map (\<lambda>z. ann_pass e m za ! z ! iy) ?zone) [3, 2, 2, 3]) \<and>
                 (\<forall>mo<12.
                    data2 ! 15 ! iy ! mo =
                      blend 0 (zip (map (\<lambda>z. data_read za ! z ! iy ! mo) ?zone)
                                 [3, 2, 2, 3]))"
        using last2 by (simp only:)
    qed
    show "alt_hemi ?a \<longrightarrow>
              (\<forall>iy<?iyrs.
                 ann2 ! 11 ! iy =
                   hemi_value (ann_pass e m za ! 3 ! iy) (ann_pass e m za ! 8 ! iy) \<and>
                 ann2 ! 12 ! iy =
                   hemi_value (ann_pass e m za ! 4 ! iy) (ann_pass e m za ! 10 ! iy))"
      using hemi2 by blast
  qed
qed

lemma annzon_values:
  assumes inp: "annzon_input e m za"
    and glb: "alt_global (default_alternate alt) \<in> {0, 1, 2}"
    and iy: "iy < nat (monm m div 12)"
  shows "\<exists>data wt ann.
           annzon e m za alt = Inr (m, data, wt, ann, zone_annual_min_months e) \<and>
           (\<forall>z. z < 16 \<and> \<not> replaced (default_alternate alt) z \<longrightarrow>
                ann ! z ! iy = zone_annual e za z iy \<and>
                (\<forall>mo. data ! z ! iy ! mo = zone_month za z iy mo)) \<and>
           (alt_global (default_alternate alt) = 1 \<longrightarrow>
              ann ! 15 ! iy =
                blend_spec (zone_annual e za 8 iy) (zone_annual e za 9 iy)
                           (zone_annual e za 9 iy) (zone_annual e za 10 iy) \<and>
              (\<forall>mo<12. data ! 15 ! iy ! mo =
                blend_spec (zone_month za 8 iy mo) (zone_month za 9 iy mo)
                           (zone_month za 9 iy mo) (zone_month za 10 iy mo))) \<and>
           (alt_global (default_alternate alt) = 2 \<longrightarrow>
              ann ! 15 ! iy =
                blend_spec (zone_annual e za 8 iy) (zone_annual e za 3 iy)
                           (zone_annual e za 4 iy) (zone_annual e za 10 iy) \<and>
              (\<forall>mo<12. data ! 15 ! iy ! mo =
                blend_spec (zone_month za 8 iy mo) (zone_month za 3 iy mo)
                           (zone_month za 4 iy mo) (zone_month za 10 iy mo))) \<and>
           (alt_hemi (default_alternate alt) \<longrightarrow>
              ann ! 11 ! iy = hemi_value (zone_annual e za 3 iy) (zone_annual e za 8 iy) \<and>
              ann ! 12 ! iy = hemi_value (zone_annual e za 4 iy) (zone_annual e za 10 iy))"
proof -
  let ?a = "default_alternate alt"
  let ?iyrs = "nat (monm m div 12)"
  from annzon_result[OF inp glb] obtain data wt ann where
    run: "annzon e m za alt = Inr (m, data, wt, ann, zone_annual_min_months e)"
    and keep: "\<forall>z. z < 16 \<and> \<not> replaced ?a z \<longrightarrow>
                ann ! z = ann_pass e m za ! z \<and> data ! z = data_read za ! z"
    and last: "alt_global ?a \<noteq> 0 \<longrightarrow>
              (\<forall>iy<?iyrs.
                 ann ! 15 ! iy =
                   blend 0 (zip (map (\<lambda>z. ann_pass e m za ! z ! iy)
                                   (if alt_global ?a = 1
                                    then [8, 9, 9, 10] else [8, 3, 4, 10])) [3, 2, 2, 3]) \<and>
                 (\<forall>mo<12.
                    data ! 15 ! iy ! mo =
                      blend 0 (zip (map (\<lambda>z. data_read za ! z ! iy ! mo)
                                      (if alt_global ?a = 1
                                       then [8, 9, 9, 10] else [8, 3, 4, 10]))
                                 [3, 2, 2, 3])))"
    and hemi: "alt_hemi ?a \<longrightarrow>
              (\<forall>iy<?iyrs.
                 ann ! 11 ! iy =
                   hemi_value (ann_pass e m za ! 3 ! iy) (ann_pass e m za ! 8 ! iy) \<and>
                 ann ! 12 ! iy =
                   hemi_value (ann_pass e m za ! 4 ! iy) (ann_pass e m za ! 10 ! iy))"
    by (elim exE conjE) (rule that; assumption)
  have A: "ann_pass e m za ! z ! iy = zone_annual e za z iy" if "z < 16" for z
    using ann_pass_props(3)[OF inp that iy] by (simp add: zone_annual_def)
  have D: "data_read za ! z ! iy ! mo = zone_month za z iy mo" if "z < 16" for z mo
    using data_read_props(3)[OF inp that iy] by (simp add: zone_month_def)
  have k: "ann ! z ! iy = zone_annual e za z iy \<and>
           (\<forall>mo. data ! z ! iy ! mo = zone_month za z iy mo)"
    if "z < 16 \<and> \<not> replaced ?a z" for z
  proof -
    from spec[OF keep, of z] that
    have "ann ! z = ann_pass e m za ! z \<and> data ! z = data_read za ! z" by (rule mp)
    then show ?thesis using A[of z] D[of z] that by simp
  qed
  have l: "ann ! 15 ! iy =
             blend 0 (zip (map (\<lambda>z. ann_pass e m za ! z ! iy)
                             (if alt_global ?a = 1 then [8, 9, 9, 10] else [8, 3, 4, 10]))
                        [3, 2, 2, 3]) \<and>
           (\<forall>mo<12. data ! 15 ! iy ! mo =
             blend 0 (zip (map (\<lambda>z. data_read za ! z ! iy ! mo)
                             (if alt_global ?a = 1 then [8, 9, 9, 10] else [8, 3, 4, 10]))
                        [3, 2, 2, 3]))"
    if "alt_global ?a \<noteq> 0"
    using last that iy by blast
  show ?thesis
  proof (intro exI conjI)
    show "annzon e m za alt = Inr (m, data, wt, ann, zone_annual_min_months e)"
      by (rule run)
    show "\<forall>z. z < 16 \<and> \<not> replaced ?a z \<longrightarrow>
                ann ! z ! iy = zone_annual e za z iy \<and>
                (\<forall>mo. data ! z ! iy ! mo = zone_month za z iy mo)"
      using k by blast
    show "alt_global ?a = 1 \<longrightarrow>
              ann ! 15 ! iy =
                blend_spec (zone_annual e za 8 iy) (zone_annual e za 9 iy)
                           (zone_annual e za 9 iy) (zone_annual e za 10 iy) \<and>
              (\<forall>mo<12. data ! 15 ! iy ! mo =
                blend_spec (zone_month za 8 iy mo) (zone_month za 9 iy mo)
                           (zone_month za 9 iy mo) (zone_month za 10 iy mo))"
    proof
      assume g1: "alt_global ?a = 1"
      then have "alt_global ?a \<noteq> 0" by simp
      from l[OF this] show "ann ! 15 ! iy =
                blend_spec (zone_annual e za 8 iy) (zone_annual e za 9 iy)
                           (zone_annual e za 9 iy) (zone_annual e za 10 iy) \<and>
              (\<forall>mo<12. data ! 15 ! iy ! mo =
                blend_spec (zone_month za 8 iy mo) (zone_month za 9 iy mo)
                           (zone_month za 9 iy mo) (zone_month za 10 iy mo))"
        using g1 A[of 8] A[of 9] A[of 10] D[of 8] D[of 9] D[of 10]
        by (simp add: blend_four del: blend.simps)
    qed
    show "alt_global ?a = 2 \<longrightarrow>
              ann ! 15 ! iy =
                blend_spec (zone_annual e za 8 iy) (zone_annual e za 3 iy)
                           (zone_annual e za 4 iy) (zone_annual e za 10 iy) \<and>
              (\<forall>mo<12. data ! 15 ! iy ! mo =
                blend_spec (zone_month za 8 iy mo) (zone_month za 3 iy mo)
                           (zone_month za 4 iy mo) (zone_month za 10 iy mo))"
    proof
      assume g2: "alt_global ?a = 2"
      then have "alt_global ?a \<noteq> 0" by simp
      from l[OF this] show "ann ! 15 ! iy =
                blend_spec (zone_annual e za 8 iy) (zone_annual e za 3 iy)
                           (zone_annual e za 4 iy) (zone_annual e za 10 iy) \<and>
              (\<forall>mo<12. data ! 15 ! iy ! mo =
                blend_spec (zone_month za 8 iy mo) (zone_month za 3 iy mo)
                           (zone_month za 4 iy mo) (zone_month za 10 iy mo))"
        using g2 A[of 8] A[of 3] A[of 4] A[of 10] D[of 8] D[of 3] D[of 4] D[of 10]
        by (simp add: blend_four del: blend.simps)
    qed
    show "alt_hemi ?a \<longrightarrow>
              ann ! 11 ! iy = hemi_value (zone_annual e za 3 iy) (zone_annual e za 8 iy) \<and>
              ann ! 12 ! iy = hemi_value (zone_annual e za 4 iy) (zone_annual e za 10 iy)"
      using hemi iy A[of 3] A[of 8] A[of 4] A[of 10] by simp
  qed
qed

lemma example_zones_input:
  "annzon_input example_env example_meta example_zones"
  "annzon_input example_env example_meta example_zones_gap"
proof -
  have len: "length example_zones = 16" "length example_zones_gap = 16"
    by (simp_all add: example_zones_def example_zones_gap_def)
  then have tk: "take 16 example_zones = example_zones"
    "take 16 example_zones_gap = example_zones_gap"
    by simp_all
  have "list_all (\<lambda>(tdata, twt). 12 * nat (monm example_meta div 12) \<le> length tdata)
          example_zones"
    "list_all (\<lambda>(tdata, twt). 12 * nat (monm example_meta div 12) \<le> length tdata)
          example_zones_gap"
    by (simp_all add: example_zones_def example_zones_gap_def example_meta_def list_all_iff)
  then show "annzon_input example_env example_meta example_zones"
    "annzon_input example_env example_meta example_zones_gap"
    by (simp_all add: annzon_input_def len tk example_env_def)
qed

lemma example_alternate:
  "alt_global (default_alternate None) = 2"
  "alt_hemi (default_alternate None)"
  "alt_global (default_alternate (Some \<lparr> alt_global = 1, alt_hemi = False \<rparr>)) = 1"
  "(0::nat) < nat (monm example_meta div 12)"
  "zone_annual_min_months example_env = 6"
  by (simp_all add: default_alternate_def example_meta_def example_env_def)

lemma example_years:
  "year_of (fst (example_zones ! 0)) 0 =
     [1, 2, 3, 4, 5, 6, MISSING, MISSING, MISSING, MISSING, MISSING, MISSING]"
  "year_of (fst (example_zones ! 1)) 0 =
     [1, 2, 3, 4, 5, MISSING, MISSING, MISSING, MISSING, MISSING, MISSING, MISSING]"
  "year_of (fst (example_zones ! 3)) 0 = replicate 12 3"
  "year_of (fst (example_zones ! 4)) 0 = replicate 12 4"
  "year_of (fst (example_zones ! 8)) 0 = replicate 12 8"
  "year_of (fst (example_zones ! 9)) 0 = replicate 12 9"
  "year_of (fst (example_zones ! 10)) 0 = replicate 12 10"
  "year_of (fst (example_zones ! 11)) 0 = replicate 12 11"
  "year_of (fst (example_zones ! 12)) 0 = replicate 12 12"
  "year_of (fst (example_zones ! 15)) 0 = replicate 12 15"
  "year_of (fst (example_zones_gap ! 3)) 0 = replicate 12 MISSING"
  "year_of (fst (example_zones_gap ! 4)) 0 = replicate 12 4"
  "year_of (fst (example_zones_gap ! 8)) 0 = replicate 12 8"
  "year_of (fst (example_zones_gap ! 10)) 0 = replicate 12 10"
  by (simp_all add: example_zones_def example_zones_gap_def year_of_def)

lemma example_year_values:
  "year_value 6 [1, 2, 3, 4, 5, 6, MISSING, MISSING, MISSING, MISSING, MISSING, MISSING] = 7 / 2"
  "year_value 6 [1, 2, 3, 4, 5, MISSING, MISSING, MISSING, MISSING, MISSING, MISSING, MISSING] =
     MISSING"
  "year_value 6 (replicate 12 3) = 3"
  "year_value 6 (replicate 12 4) = 4"
  "year_value 6 (replicate 12 8) = 8"
  "year_value 6 (replicate 12 9) = 9"
  "year_value 6 (replicate 12 10) = 10"
  "year_value 6 (replicate 12 11) = 11"
  "year_value 6 (replicate 12 12) = 12"
  "year_value 6 (replicate 12 15) = 15"
  "year_value 6 (replicate 12 MISSING) = MISSING"
  by (simp_all add: year_value_def valid_def MISSING_def sum_list_replicate)

lemma example_annual:
  "zone_annual example_env example_zones 0 0 = 7 / 2"
  "zone_annual example_env example_zones 1 0 = MISSING"
  "zone_annual example_env example_zones 3 0 = 3"
  "zone_annual example_env example_zones 4 0 = 4"
  "zone_annual example_env example_zones 8 0 = 8"
  "zone_annual example_env example_zones 9 0 = 9"
  "zone_annual example_env example_zones 10 0 = 10"
  "zone_annual example_env example_zones 11 0 = 11"
  "zone_annual example_env example_zones 12 0 = 12"
  "zone_annual example_env example_zones 15 0 = 15"
  "zone_annual example_env example_zones_gap 3 0 = MISSING"
  "zone_annual example_env example_zones_gap 4 0 = 4"
  "zone_annual example_env example_zones_gap 8 0 = 8"
  "zone_annual example_env example_zones_gap 10 0 = 10"
  by (simp_all only: zone_annual_def example_alternate example_years example_year_values)

lemma example_month:
  "zone_month example_zones 3 0 0 = 3"
  "zone_month example_zones 4 0 0 = 4"
  "zone_month example_zones 8 0 0 = 8"
  "zone_month example_zones 9 0 0 = 9"
  "zone_month example_zones 10 0 0 = 10"
  "zone_month example_zones_gap 3 0 0 = MISSING"
  "zone_month example_zones_gap 4 0 0 = 4"
  "zone_month example_zones_gap 8 0 0 = 8"
  "zone_month example_zones_gap 10 0 0 = 10"
  by (simp_all add: zone_month_def example_years)

lemma example_blends:
  "blend_spec 8 3 4 10 = 34 / 5"
  "blend_spec 8 9 9 10 = 9"
  "blend_spec 8 MISSING 4 10 = MISSING"
  "hemi_value 3 8 = 6"
  "hemi_value 4 10 = 38 / 5"
  by (simp_all add: blend_spec_def hemi_value_def MISSING_def)

text \<open>
  C6 (with the alternate global estimator in variant 1 or 2, the annual value
  and every monthly value of the last zone are 0.1 (3 z_a + 2 z_b + 2 z_c + 3 z_d)
  of the zones (8, 9, 9, 10) or (8, 3, 4, 10) when the four values are valid, and
  missing when one of them is missing). The four contributing values are the
  annual values, and the monthly values, of the four zones as their monthly
  series in the input give them; the four zones are not themselves replaced by
  an alternate estimator, so annzon also returns these values for them.
\<close>

theorem annzon_alternate_global:
  assumes "annzon_input e m za"
    and "alt_global (default_alternate alt) = 1 \<or> alt_global (default_alternate alt) = 2"
    and "iy < nat (monm m div 12)" and "mo < 12"
  shows "\<exists>data wt ann.
           annzon e m za alt = Inr (m, data, wt, ann, zone_annual_min_months e) \<and>
           (case (if alt_global (default_alternate alt) = 1
                  then (8, 9, 9, 10) else (8, 3, 4, 10 :: nat)) of
              (a, b, c, d) \<Rightarrow>
                ann ! 15 ! iy =
                  blend_spec (zone_annual e za a iy) (zone_annual e za b iy)
                             (zone_annual e za c iy) (zone_annual e za d iy) \<and>
                data ! 15 ! iy ! mo =
                  blend_spec (zone_month za a iy mo) (zone_month za b iy mo)
                             (zone_month za c iy mo) (zone_month za d iy mo) \<and>
                (\<forall>z\<in>{a, b, c, d}.
                   ann ! z ! iy = zone_annual e za z iy \<and>
                   data ! z ! iy ! mo = zone_month za z iy mo))"
proof -
  let ?a = "default_alternate alt"
  from assms(2) have g: "alt_global ?a \<in> {0, 1, 2}"
    by auto
  from annzon_values[OF assms(1) g assms(3)] obtain data wt ann where
    run: "annzon e m za alt = Inr (m, data, wt, ann, zone_annual_min_months e)"
    and keep: "\<forall>z. z < 16 \<and> \<not> replaced ?a z \<longrightarrow>
                ann ! z ! iy = zone_annual e za z iy \<and>
                (\<forall>mo. data ! z ! iy ! mo = zone_month za z iy mo)"
    and v1: "alt_global ?a = 1 \<longrightarrow>
              ann ! 15 ! iy =
                blend_spec (zone_annual e za 8 iy) (zone_annual e za 9 iy)
                           (zone_annual e za 9 iy) (zone_annual e za 10 iy) \<and>
              (\<forall>mo<12. data ! 15 ! iy ! mo =
                blend_spec (zone_month za 8 iy mo) (zone_month za 9 iy mo)
                           (zone_month za 9 iy mo) (zone_month za 10 iy mo))"
    and v2: "alt_global ?a = 2 \<longrightarrow>
              ann ! 15 ! iy =
                blend_spec (zone_annual e za 8 iy) (zone_annual e za 3 iy)
                           (zone_annual e za 4 iy) (zone_annual e za 10 iy) \<and>
              (\<forall>mo<12. data ! 15 ! iy ! mo =
                blend_spec (zone_month za 8 iy mo) (zone_month za 3 iy mo)
                           (zone_month za 4 iy mo) (zone_month za 10 iy mo))"
    by (elim exE conjE) (rule that; assumption)
  have k: "ann ! z ! iy = zone_annual e za z iy \<and> data ! z ! iy ! mo = zone_month za z iy mo"
    if "z \<in> {3, 4, 8, 9, 10}" for z
  proof -
    from that have "z < 16 \<and> \<not> replaced ?a z"
      by (auto simp: replaced_def)
    with spec[OF keep, of z] show ?thesis by blast
  qed
  have c: "case (if alt_global ?a = 1 then (8, 9, 9, 10) else (8, 3, 4, 10 :: nat)) of
              (a, b, c, d) \<Rightarrow>
                ann ! 15 ! iy =
                  blend_spec (zone_annual e za a iy) (zone_annual e za b iy)
                             (zone_annual e za c iy) (zone_annual e za d iy) \<and>
                data ! 15 ! iy ! mo =
                  blend_spec (zone_month za a iy mo) (zone_month za b iy mo)
                             (zone_month za c iy mo) (zone_month za d iy mo) \<and>
                (\<forall>z\<in>{a, b, c, d}.
                   ann ! z ! iy = zone_annual e za z iy \<and>
                   data ! z ! iy ! mo = zone_month za z iy mo)"
  proof (cases "alt_global ?a = 1")
    case True
    with v1 assms(4) k[of 8] k[of 9] k[of 10] show ?thesis by simp
  next
    case False
    with assms(2) have "alt_global ?a = 2" by simp
    with v2 assms(4) k[of 8] k[of 3] k[of 4] k[of 10] show ?thesis by simp
  qed
  show ?thesis
    by (intro exI conjI) (rule run, rule c)
qed

theorem annzon_alternate_global_witness:
  "annzon_input example_env example_meta example_zones \<and>
   annzon_input example_env example_meta example_zones_gap \<and>
   alt_global (default_alternate None) = 2 \<and>
   alt_global (default_alternate (Some \<lparr> alt_global = 1, alt_hemi = False \<rparr>)) = 1 \<and>
   (0::nat) < nat (monm example_meta div 12) \<and> (0::nat) < 12 \<and>
   (\<exists>data wt ann.
      annzon example_env example_meta example_zones None =
        Inr (example_meta, data, wt, ann, zone_annual_min_months example_env) \<and>
      ann ! 15 ! 0 = 34 / 5 \<and> data ! 15 ! 0 ! 0 = 34 / 5 \<and>
      ann ! 8 ! 0 = 8 \<and> ann ! 3 ! 0 = 3 \<and> ann ! 4 ! 0 = 4 \<and> ann ! 10 ! 0 = 10) \<and>
   (\<exists>data wt ann.
      annzon example_env example_meta example_zones
          (Some \<lparr> alt_global = 1, alt_hemi = False \<rparr>) =
        Inr (example_meta, data, wt, ann, zone_annual_min_months example_env) \<and>
      ann ! 15 ! 0 = 9 \<and> data ! 15 ! 0 ! 0 = 9) \<and>
   (\<exists>data wt ann.
      annzon example_env example_meta example_zones_gap None =
        Inr (example_meta, data, wt, ann, zone_annual_min_months example_env) \<and>
      ann ! 3 ! 0 = MISSING \<and> ann ! 15 ! 0 = MISSING \<and> data ! 15 ! 0 ! 0 = MISSING)"
proof -
  have m: "(0::nat) < 12" by simp
  note t2 = annzon_alternate_global [OF example_zones_input(1) _ example_alternate(4) m, of None]
  note t1 = annzon_alternate_global [OF example_zones_input(1) _ example_alternate(4) m,
      of "Some \<lparr> alt_global = 1, alt_hemi = False \<rparr>"]
  note tg = annzon_alternate_global [OF example_zones_input(2) _ example_alternate(4) m, of None]
  from t2 have "\<exists>data wt ann.
      annzon example_env example_meta example_zones None =
        Inr (example_meta, data, wt, ann, zone_annual_min_months example_env) \<and>
      ann ! 15 ! 0 = 34 / 5 \<and> data ! 15 ! 0 ! 0 = 34 / 5 \<and>
      ann ! 8 ! 0 = 8 \<and> ann ! 3 ! 0 = 3 \<and> ann ! 4 ! 0 = 4 \<and> ann ! 10 ! 0 = 10"
    by (auto simp: example_alternate example_annual example_month example_blends)
  moreover from t1 have "\<exists>data wt ann.
      annzon example_env example_meta example_zones
          (Some \<lparr> alt_global = 1, alt_hemi = False \<rparr>) =
        Inr (example_meta, data, wt, ann, zone_annual_min_months example_env) \<and>
      ann ! 15 ! 0 = 9 \<and> data ! 15 ! 0 ! 0 = 9"
    by (auto simp: example_alternate example_annual example_month example_blends)
  moreover from tg have "\<exists>data wt ann.
      annzon example_env example_meta example_zones_gap None =
        Inr (example_meta, data, wt, ann, zone_annual_min_months example_env) \<and>
      ann ! 3 ! 0 = MISSING \<and> ann ! 15 ! 0 = MISSING \<and> data ! 15 ! 0 ! 0 = MISSING"
    by (auto simp: example_alternate example_annual example_month example_blends)
  ultimately show ?thesis
    using example_zones_input example_alternate by simp
qed

text \<open>
  C7 (for every zone and every year, the annual value is the mean of the valid
  months of the year when these are at least zone_annual_min_months, and missing
  otherwise). With the default argument of annzon, which is how step5 calls it,
  the alternate estimators replace the annual values of zones 15, 11 and 12
  after the annual means are found. In the example every month of zone k has the
  value k, so the means of zones 15, 11 and 12 are 15, 11 and 12, each from 12
  valid months against a threshold of 6; annzon returns 34/5, 6 and 38/5.
\<close>

theorem annzon_annual_mean_counterexample:
  "zone_annual_min_months example_env = 6 \<and>
   length (filter valid (year_of (fst (example_zones ! 15)) 0)) = 12 \<and>
   zone_annual example_env example_zones 15 0 = 15 \<and>
   returned_ann (annzon example_env example_meta example_zones None) ! 15 ! 0 = 34 / 5 \<and>
   zone_annual example_env example_zones 11 0 = 11 \<and>
   returned_ann (annzon example_env example_meta example_zones None) ! 11 ! 0 = 6 \<and>
   zone_annual example_env example_zones 12 0 = 12 \<and>
   returned_ann (annzon example_env example_meta example_zones None) ! 12 ! 0 = 38 / 5"
proof -
  have g: "alt_global (default_alternate None) \<in> {0, 1, 2}"
    by (simp add: example_alternate)
  from annzon_values[OF example_zones_input(1) g example_alternate(4)]
  obtain data wt ann where
    run: "annzon example_env example_meta example_zones None =
            Inr (example_meta, data, wt, ann, zone_annual_min_months example_env)"
    and v: "ann ! 15 ! 0 = 34 / 5" "ann ! 11 ! 0 = 6" "ann ! 12 ! 0 = 38 / 5"
    by (auto simp: example_alternate example_annual example_blends)
  have "length (filter valid (year_of (fst (example_zones ! 15)) 0)) = 12"
    by (simp only: example_years) (simp add: valid_def MISSING_def)
  then show ?thesis
    using v by (simp add: run returned_ann_def example_alternate example_annual)
qed

text \<open>
  C7 as amended: whenever annzon returns, for every zone whose annual series no
  enabled alternate estimator replaces (all zones but 15 under the alternate
  global mean, all but 11 and 12 under the alternate hemispheric means) and for
  every year, the returned annual value is the mean of the valid months of that
  year when their count is at least zone_annual_min_months, and missing
  otherwise: missing with one month less than the threshold, the mean with
  exactly the threshold.
\<close>

theorem annzon_annual_mean:
  assumes "annzon_input e m za"
    and "alt_global (default_alternate alt) \<in> {0, 1, 2}"
    and "z < 16" and "iy < nat (monm m div 12)"
    and "\<not> replaced (default_alternate alt) z"
  shows "\<exists>data wt ann.
           annzon e m za alt = Inr (m, data, wt, ann, zone_annual_min_months e) \<and>
           ann ! z ! iy =
             year_value (zone_annual_min_months e) (year_of (fst (za ! z)) iy)"
proof -
  from annzon_values[OF assms(1,2,4)] obtain data wt ann where
    run: "annzon e m za alt = Inr (m, data, wt, ann, zone_annual_min_months e)"
    and keep: "\<forall>z. z < 16 \<and> \<not> replaced (default_alternate alt) z \<longrightarrow>
                ann ! z ! iy = zone_annual e za z iy \<and>
                (\<forall>mo. data ! z ! iy ! mo = zone_month za z iy mo)"
    by (elim exE conjE) (rule that; assumption)
  from spec[OF keep, of z] assms(3,5)
  have "ann ! z ! iy = year_value (zone_annual_min_months e) (year_of (fst (za ! z)) iy)"
    by (simp add: zone_annual_def)
  with run show ?thesis by (intro exI conjI)
qed

theorem annzon_annual_mean_witness:
  "annzon_input example_env example_meta example_zones \<and>
   alt_global (default_alternate None) \<in> {0, 1, 2} \<and>
   (1::nat) < 16 \<and> (0::nat) < nat (monm example_meta div 12) \<and>
   length (filter valid (year_of (fst (example_zones ! 0)) 0)) = 6 \<and>
   length (filter valid (year_of (fst (example_zones ! 1)) 0)) = 5 \<and>
   (\<exists>data wt ann.
      annzon example_env example_meta example_zones None =
        Inr (example_meta, data, wt, ann, zone_annual_min_months example_env) \<and>
      ann ! 0 ! 0 = 7 / 2) \<and>
   (\<exists>data wt ann.
      annzon example_env example_meta example_zones None =
        Inr (example_meta, data, wt, ann, zone_annual_min_months example_env) \<and>
      ann ! 1 ! 0 = MISSING)"
proof -
  have g: "alt_global (default_alternate None) \<in> {0, 1, 2}"
    by (simp add: example_alternate)
  have r: "\<not> replaced (default_alternate None) 0" "\<not> replaced (default_alternate None) 1"
    by (simp_all add: replaced_def)
  have z: "(0::nat) < 16" "(1::nat) < 16" by simp_all
  note t0 = annzon_annual_mean [OF example_zones_input(1) g z(1) example_alternate(4) r(1)]
  note t1 = annzon_annual_mean [OF example_zones_input(1) g z(2) example_alternate(4) r(2)]
  from t0 have e0: "\<exists>data wt ann.
      annzon example_env example_meta example_zones None =
        Inr (example_meta, data, wt, ann, zone_annual_min_months example_env) \<and>
      ann ! 0 ! 0 = 7 / 2"
    by (simp only: example_alternate example_years example_year_values)
  from t1 have e1: "\<exists>data wt ann.
      annzon example_env example_meta example_zones None =
        Inr (example_meta, data, wt, ann, zone_annual_min_months example_env) \<and>
      ann ! 1 ! 0 = MISSING"
    by (simp only: example_alternate example_years example_year_values)
  have c: "length (filter valid (year_of (fst (example_zones ! 0)) 0)) = 6"
    "length (filter valid (year_of (fst (example_zones ! 1)) 0)) = 5"
    by (simp_all only: example_years) (simp_all add: valid_def MISSING_def)
  show ?thesis
    using example_zones_input(1) g example_alternate(4) c e0 e1 by simp
qed

end
